theory Spec2Isabelle
  imports Complex_Main "HOL-Library.Multiset" "HOL-Library.Log_Nat"
begin

section \<open>Data model\<close>

text \<open>
  The entities of \<^verbatim>\<open>types.ts\<close> as the services use them. Two records may not share
  a field name, so the fields \<^verbatim>\<open>id\<close>, \<^verbatim>\<open>name\<close>, \<^verbatim>\<open>completed\<close> and \<^verbatim>\<open>value\<close> carry
  a suffix naming their record (\<open>_h\<close> habit, \<open>_i\<close> instance, \<open>_t\<close> task,
  \<open>_p\<close> project). An optional property is an \<open>option\<close>; \<open>None\<close> is
  \<^verbatim>\<open>undefined\<close>.
\<close>

text \<open>Modelled from the spec: the enumerations of \<^verbatim>\<open>types.ts\<close>, with the members the
  sources and the data model name.\<close>

datatype InterestType = HEALTH | FINANCE | DETOX | LEARNING | PRODUCTIVITY

datatype ScheduleType = DAILY | WEEKDAYS | WEEKENDS | CUSTOM

datatype TriggerType = MANUAL | LOCATION | APP_OPEN | SCREEN_TIME

record TriggerConfig =
  locationName :: "string option"
  appName :: "string option"
  actionDetail :: "string option"
  thresholdMinutes :: "nat option"

record Habit =
  id_h :: string
  name_h :: string
  icon :: string
  interest :: InterestType
  schedule :: ScheduleType
  triggerType :: TriggerType
  triggerConfig :: "TriggerConfig option"
  streak :: nat

record HabitInstance =
  id_i :: string
  habitId :: string
  date :: string
  completed_i :: bool
  completedAt :: "string option"
  value_i :: "rat option"

section \<open>JavaScript numbers\<close>

text \<open>
  A JavaScript number is an IEEE-754 double. The finite doubles are rationals, and an
  arithmetic operation returns the exact result rounded to the nearest double, a tie
  going to the even significand of 53 bits. The model leaves out the bounds of the
  exponent: the numbers computed below come from lengths of lists and the constants
  100, 21, 0.7 and 0.3, and none leaves the normal range.

  \<open>exponentOf x\<close> is the exponent of the binade of \<open>x \<noteq> 0\<close>, the integer \<open>e\<close> with
  \<open>2\<^sup>e \<le> \<bar>x\<bar> < 2\<^sup>e\<^sup>+\<^sup>1\<close>, read off the length in bits of the integer part of
  \<open>\<bar>x\<bar>\<close>, or of its inverse when \<open>\<bar>x\<bar> < 1\<close>.
\<close>

definition exponentOf :: "rat \<Rightarrow> int" where
  "exponentOf x =
     (if 1 \<le> \<bar>x\<bar> then int (floorlog 2 (nat \<lfloor>\<bar>x\<bar>\<rfloor>)) - 1
      else - int (floorlog 2 (nat (\<lceil>1 / \<bar>x\<bar>\<rceil> - 1))))"

definition roundHalfEven :: "rat \<Rightarrow> int" where
  "roundHalfEven z =
     (let f = \<lfloor>z\<rfloor>; r = z - of_int f
      in if r < 1 / 2 then f else if 1 / 2 < r then f + 1 else if even f then f else f + 1)"

text \<open>The double nearest to a rational: a multiple of the unit in the last place of its
  binade.\<close>

definition toDouble :: "rat \<Rightarrow> rat" where
  "toDouble x =
     (if x = 0 then 0
      else let ulp = 2 powi (exponentOf x - 52)
           in of_int (roundHalfEven (x / ulp)) * ulp)"

text \<open>\<^verbatim>\<open>Math.round\<close>: the nearest integer, a half going upwards.\<close>

definition Math_round :: "rat \<Rightarrow> int" where
  "Math_round x = \<lfloor>x + 1 / 2\<rfloor>"

section \<open>Streak and strength (utils.ts)\<close>

text \<open>
  \<^verbatim>\<open>[...instances].sort((a, b) => new Date(b.date).getTime() - new Date(a.date).getTime())\<close>.
  The parsing of a date string into a time stamp is the platform's; it is the parameter
  \<open>getTime\<close>. \<^verbatim>\<open>Array.prototype.sort\<close> is stable, so with this comparator the result
  is the stable sort by descending time stamp, that is by ascending negated time stamp.
\<close>

definition sortDesc :: "(string \<Rightarrow> int) \<Rightarrow> HabitInstance list \<Rightarrow> HabitInstance list" where
  "sortDesc getTime instances = sort_key (\<lambda>i. - getTime (date i)) instances"

text \<open>
  The loop over the sorted instances, with the counter \<^verbatim>\<open>currentStreak\<close> as accumulator:
  a completed instance counts, an open instance dated \<open>todayStr\<close> is passed over
  (\<^verbatim>\<open>continue\<close>), any other open instance ends the loop (\<^verbatim>\<open>break\<close>).
\<close>

fun streakLoop :: "string \<Rightarrow> HabitInstance list \<Rightarrow> nat \<Rightarrow> nat" where
  "streakLoop todayStr [] currentStreak = currentStreak"
| "streakLoop todayStr (inst # rest) currentStreak =
     (if completed_i inst then streakLoop todayStr rest (currentStreak + 1)
      else if date inst = todayStr then streakLoop todayStr rest currentStreak
      else currentStreak)"

text \<open>\<open>todayStr\<close> is \<^verbatim>\<open>formatDate(new Date())\<close>, the date of the call.\<close>

definition getHabitStreak :: "(string \<Rightarrow> int) \<Rightarrow> string \<Rightarrow> HabitInstance list \<Rightarrow> nat" where
  "getHabitStreak getTime todayStr instances =
     streakLoop todayStr (sortDesc getTime instances) 0"

text \<open>
  \<^verbatim>\<open>calculateHabitStrength\<close> of \<^verbatim>\<open>utils.ts\<close>. \<open>completionRate\<close> and
  \<open>streakBonus\<close> are the local constants of these names,
  \<^verbatim>\<open>(totalCompleted / totalInstances) * 100\<close> and
  \<^verbatim>\<open>(Math.min(currentStreak, 21) / 21) * 100\<close>; each operation rounds to a double, and
  the literals 0.7 and 0.3 denote the doubles nearest to them.
\<close>

definition completionRate :: "nat \<Rightarrow> nat \<Rightarrow> rat" where
  "completionRate totalCompleted totalInstances =
     toDouble (toDouble (of_nat totalCompleted / of_nat totalInstances) * 100)"

definition streakBonus :: "nat \<Rightarrow> rat" where
  "streakBonus currentStreak = toDouble (toDouble (of_nat (min currentStreak 21) / 21) * 100)"

definition calculateHabitStrength ::
    "(string \<Rightarrow> int) \<Rightarrow> string \<Rightarrow> Habit \<Rightarrow> HabitInstance list \<Rightarrow> int" where
  "calculateHabitStrength getTime todayStr habit instances =
     (let sorted' = sortDesc getTime instances;
          currentStreak = streakLoop todayStr sorted' 0;
          totalCompleted = length (filter completed_i sorted');
          totalInstances = length sorted'
      in if totalInstances = 0 then 0
         else Math_round
                (toDouble (toDouble (completionRate totalCompleted totalInstances * toDouble (7 / 10))
                           + toDouble (streakBonus currentStreak * toDouble (3 / 10)))))"

text \<open>
  The score in the words of the specification, in exact arithmetic:
  \<open>round(completionRate * 0.7 + streakBonus * 0.3)\<close> with
  \<open>completionRate = 100 * completedCount / totalCount\<close> and
  \<open>streakBonus = 100 * min(streak, 21) / 21\<close>, and 0 for no instance.
\<close>

definition strength_spec :: "nat \<Rightarrow> nat \<Rightarrow> nat \<Rightarrow> int" where
  "strength_spec completedCount totalCount streak' =
     (if totalCount = 0 then 0
      else Math_round
             ((100 * of_nat completedCount / of_nat totalCount) * (7 / 10)
              + (100 * of_nat (min streak' 21) / 21) * (3 / 10)))"

text \<open>An instance the loop passes over: open and dated today.\<close>

definition openToday :: "string \<Rightarrow> HabitInstance \<Rightarrow> bool" where
  "openToday todayStr inst = (\<not> completed_i inst \<and> date inst = todayStr)"

section \<open>The localStorage store (services/mockDb.ts)\<close>

text \<open>Modelled from the spec: the task and project entities of \<^verbatim>\<open>types.ts\<close>, with the
  fields the store reads (\<^verbatim>\<open>id\<close>, \<^verbatim>\<open>projectId\<close>, \<^verbatim>\<open>completed\<close>, \<^verbatim>\<open>progress\<close>,
  \<^verbatim>\<open>status\<close>) and one descriptive field each; a project's status is
  \<^verbatim>\<open>active | completed\<close>.\<close>

record Task =
  id_t :: string
  title :: string
  projectId :: "string option"
  completed_t :: bool

text \<open>\<^verbatim>\<open>Partial<Task>\<close>: \<open>None\<close> is a key that is absent; for the optional
  \<^verbatim>\<open>projectId\<close>, \<open>Some None\<close> is the key present with the value \<^verbatim>\<open>undefined\<close>.\<close>

record TaskUpdates =
  id_u :: "string option"
  title_u :: "string option"
  projectId_u :: "string option option"
  completed_u :: "bool option"

datatype ProjectStatus = Active | Completed

record Project =
  id_p :: string
  name_p :: string
  progress :: nat
  status :: ProjectStatus

text \<open>The four keys of \<^verbatim>\<open>localStorage\<close> the service keeps its lists under; \<open>None\<close> is a
  key that was never written (\<^verbatim>\<open>getItem\<close> returns \<^verbatim>\<open>null\<close>).\<close>

record Store =
  HABITS :: "Habit list option"
  INSTANCES :: "HabitInstance list option"
  TASKS :: "Task list option"
  PROJECTS :: "Project list option"

text \<open>\<^verbatim>\<open>stored ? JSON.parse(stored) : []\<close>\<close>

definition parseOrEmpty :: "'a list option \<Rightarrow> 'a list" where
  "parseOrEmpty stored = (case stored of None \<Rightarrow> [] | Some xs \<Rightarrow> xs)"

text \<open>\<^verbatim>\<open>Array.prototype.findIndex\<close>; \<open>None\<close> is the result \<^verbatim>\<open>-1\<close>.\<close>

fun findIndex :: "('a \<Rightarrow> bool) \<Rightarrow> 'a list \<Rightarrow> nat option" where
  "findIndex P [] = None"
| "findIndex P (x # xs) = (if P x then Some 0 else map_option Suc (findIndex P xs))"

subsection \<open>Suggestion engine\<close>

definition SUGGESTED_HABITS :: "Habit list" where
  "SUGGESTED_HABITS =
    [ \<lparr>id_h = ''h1'', name_h = ''Morning Run (Gym)'', icon = ''Activity'', interest = HEALTH,
        schedule = DAILY, triggerType = LOCATION,
        triggerConfig = Some \<lparr>locationName = Some ''Gold's Gym'', appName = None,
          actionDetail = None, thresholdMinutes = None\<rparr>,
        streak = 0\<rparr>,
      \<lparr>id_h = ''h2'', name_h = ''Market Analysis'', icon = ''TrendingUp'', interest = FINANCE,
        schedule = WEEKDAYS, triggerType = APP_OPEN,
        triggerConfig = Some \<lparr>locationName = None, appName = Some ''Market Terminal'',
          actionDetail = Some ''Check S&P 500'', thresholdMinutes = None\<rparr>,
        streak = 0\<rparr>,
      \<lparr>id_h = ''h3'', name_h = ''Social Media < 30m'', icon = ''Smartphone'', interest = DETOX,
        schedule = DAILY, triggerType = SCREEN_TIME,
        triggerConfig = Some \<lparr>locationName = None, appName = None,
          actionDetail = None, thresholdMinutes = Some 30\<rparr>,
        streak = 0\<rparr>,
      \<lparr>id_h = ''h4'', name_h = ''Read 1 Chapter'', icon = ''BookOpen'', interest = LEARNING,
        schedule = DAILY, triggerType = MANUAL, triggerConfig = None, streak = 0\<rparr>,
      \<lparr>id_h = ''h5'', name_h = ''Deep Work Session'', icon = ''Zap'', interest = PRODUCTIVITY,
        schedule = WEEKDAYS, triggerType = APP_OPEN,
        triggerConfig = Some \<lparr>locationName = None, appName = Some ''Timer Started'',
          actionDetail = None, thresholdMinutes = None\<rparr>,
        streak = 0\<rparr> ]"

definition getSuggestions :: "InterestType list \<Rightarrow> Habit list" where
  "getSuggestions interests =
     (let suggestions = filter (\<lambda>h. interest h \<in> set interests) SUGGESTED_HABITS;
          suggestions' =
            (if length suggestions < 5 then
               let remaining = 5 - length suggestions;
                   defaults = take remaining
                     (filter (\<lambda>h. find (\<lambda>s. id_h s = id_h h) suggestions = None)
                        SUGGESTED_HABITS)
               in suggestions @ defaults
             else suggestions)
      in take 5 suggestions')"

text \<open>
  The suggestion algorithm in the words of the specification, over any catalog and
  target count: the entries whose interest is requested, in catalog order, then the
  entries not selected, in catalog order, cut to the target count.
\<close>

definition suggest_spec :: "InterestType list \<Rightarrow> Habit list \<Rightarrow> nat \<Rightarrow> Habit list" where
  "suggest_spec interests catalog targetCount =
     take targetCount
       (filter (\<lambda>h. interest h \<in> set interests) catalog
        @ filter (\<lambda>h. interest h \<notin> set interests) catalog)"

subsection \<open>Habits and their streaks\<close>

text \<open>
  The private \<^verbatim>\<open>calculateHabitStrength(habit, instances)\<close> of the service assigns
  \<^verbatim>\<open>habit.streak = currentStreak\<close>, computed by the same sort and loop as
  \<^verbatim>\<open>getHabitStreak\<close>; \<^verbatim>\<open>getHabits\<close> calls it for this effect and drops the score
  it returns.
\<close>

definition assignStreak :: "(string \<Rightarrow> int) \<Rightarrow> string \<Rightarrow> Habit \<Rightarrow> HabitInstance list \<Rightarrow> Habit" where
  "assignStreak getTime todayStr habit instances =
     habit\<lparr>streak := streakLoop todayStr (sortDesc getTime instances) 0\<rparr>"

definition getHabits :: "(string \<Rightarrow> int) \<Rightarrow> string \<Rightarrow> Store \<Rightarrow> Habit list" where
  "getHabits getTime todayStr st =
     (let habits = parseOrEmpty (HABITS st);
          instances = parseOrEmpty (INSTANCES st)
      in map (\<lambda>habit. assignStreak getTime todayStr habit
                (filter (\<lambda>i. habitId i = id_h habit) instances)) habits)"

subsection \<open>Scheduling and instance creation\<close>

text \<open>
  \<^verbatim>\<open>createInstancesForDay\<close>. The day of the week of a date string,
  \<^verbatim>\<open>new Date(dateStr).getDay()\<close> with 0 for Sunday and 6 for Saturday, is the platform's:
  the parameter \<open>getDay\<close>. \<open>isWeekend\<close> is the local constant of that name and
  \<open>scheduled\<close> the callback of the filter.
\<close>

definition isWeekend :: "nat \<Rightarrow> bool" where
  "isWeekend dayOfWeek = (dayOfWeek = 0 \<or> dayOfWeek = 6)"

definition scheduled :: "bool \<Rightarrow> Habit \<Rightarrow> bool" where
  "scheduled weekend h =
     (if schedule h = DAILY then True
      else if schedule h = WEEKDAYS then \<not> weekend
      else if schedule h = WEEKENDS then weekend
      else True)"

definition newInstance :: "string \<Rightarrow> Habit \<Rightarrow> HabitInstance" where
  "newInstance dateStr h =
     \<lparr>id_i = dateStr @ ''_'' @ id_h h, habitId = id_h h, date = dateStr,
      completed_i = False, completedAt = None, value_i = None\<rparr>"

definition createInstancesForDay :: "(string \<Rightarrow> nat) \<Rightarrow> string \<Rightarrow> Habit list \<Rightarrow> HabitInstance list" where
  "createInstancesForDay getDay dateStr habits =
     map (newInstance dateStr) (filter (scheduled (isWeekend (getDay dateStr))) habits)"

text \<open>The scheduling rule in the words of the specification, by day of the week.\<close>

fun dueOn :: "nat \<Rightarrow> ScheduleType \<Rightarrow> bool" where
  "dueOn dayOfWeek DAILY = True"
| "dueOn dayOfWeek WEEKDAYS = (dayOfWeek \<noteq> 0 \<and> dayOfWeek \<noteq> 6)"
| "dueOn dayOfWeek WEEKENDS = (dayOfWeek = 0 \<or> dayOfWeek = 6)"
| "dueOn dayOfWeek CUSTOM = True"

text \<open>
  What the platform computes for \<^verbatim>\<open>new Date(dateStr).getDay()\<close> (ECMAScript): the day of
  the week of the local time of the instant the string denotes,
  \<open>WeekDay(LocalTime(t))\<close> with \<open>t\<close> the time stamp \<^verbatim>\<open>new Date(dateStr).getTime()\<close>
  in milliseconds, \<open>LocalTime(t) = t + localTZA\<close> for the offset \<open>localTZA\<close> of the
  local time zone, and \<open>WeekDay(t) = (Day(t) + 4) mod 7\<close> where \<open>Day(t)\<close> is \<open>t\<close> over the
  86400000 milliseconds of a day, rounded down. A date string \<^verbatim>\<open>YYYY-MM-DD\<close> denotes
  midnight UTC of that date.
\<close>

definition WeekDay :: "int \<Rightarrow> nat" where
  "WeekDay t = nat ((t div 86400000 + 4) mod 7)"

definition localGetDay :: "int \<Rightarrow> (string \<Rightarrow> int) \<Rightarrow> string \<Rightarrow> nat" where
  "localGetDay localTZA getTime dateStr = WeekDay (getTime dateStr + localTZA)"

text \<open>
  The loop of \<^verbatim>\<open>getWeekInstances\<close> over the requested dates; its state is the three
  variables \<^verbatim>\<open>allInstances\<close>, \<^verbatim>\<open>weekInstances\<close> and \<^verbatim>\<open>hasChanges\<close>.
\<close>

fun weekLoop :: "(string \<Rightarrow> nat) \<Rightarrow> Habit list \<Rightarrow> string list
    \<Rightarrow> HabitInstance list \<times> HabitInstance list \<times> bool
    \<Rightarrow> HabitInstance list \<times> HabitInstance list \<times> bool" where
  "weekLoop getDay habits [] s = s"
| "weekLoop getDay habits (d # dates) (allInstances, weekInstances, hasChanges) =
     (let dayInst = filter (\<lambda>i. date i = d) allInstances in
      if length dayInst = 0 then
        let created = createInstancesForDay getDay d habits
        in weekLoop getDay habits dates (allInstances @ created, weekInstances @ created, True)
      else weekLoop getDay habits dates (allInstances, weekInstances @ dayInst, hasChanges))"

text \<open>\<^verbatim>\<open>getWeekInstances\<close> returns the instances of the week; the store after the call is
  the first component.\<close>

definition getWeekInstances :: "(string \<Rightarrow> nat) \<Rightarrow> (string \<Rightarrow> int) \<Rightarrow> string \<Rightarrow> string list
    \<Rightarrow> Store \<Rightarrow> Store \<times> HabitInstance list" where
  "getWeekInstances getDay getTime todayStr dates st =
     (let allInstances = parseOrEmpty (INSTANCES st);
          habits = getHabits getTime todayStr st;
          (allInstances', weekInstances, hasChanges) =
             (if length habits > 0 then weekLoop getDay habits dates (allInstances, [], False)
              else (allInstances, [], False))
      in (if hasChanges then st\<lparr>INSTANCES := Some allInstances'\<rparr> else st, weekInstances))"

text \<open>
  \<^verbatim>\<open>updateInstanceStatus\<close>; \<open>now\<close> is \<^verbatim>\<open>new Date().toISOString()\<close> at the call and
  \<open>v\<close> the optional argument \<^verbatim>\<open>value\<close>.
\<close>

definition updateInstanceStatus :: "string \<Rightarrow> string \<Rightarrow> bool \<Rightarrow> rat option \<Rightarrow> Store \<Rightarrow> Store" where
  "updateInstanceStatus now instanceId completed v st =
     (case INSTANCES st of
        None \<Rightarrow> st
      | Some instances \<Rightarrow>
          (case findIndex (\<lambda>i. id_i i = instanceId) instances of
             None \<Rightarrow> st
           | Some idx \<Rightarrow>
               let inst = instances ! idx;
                   inst1 = inst\<lparr>completed_i := completed\<rparr>;
                   inst2 = (if completed then inst1\<lparr>completedAt := Some now\<rparr> else inst1);
                   inst3 = (case v of None \<Rightarrow> inst2 | Some x \<Rightarrow> inst2\<lparr>value_i := Some x\<rparr>)
               in st\<lparr>INSTANCES := Some (instances[idx := inst3])\<rparr>))"

text \<open>
  \<^verbatim>\<open>seedInstancesForWeek\<close>. The date string of the day \<open>i\<close> days from today is the
  platform's (\<open>dateOf\<close>). The demo marks a created past instance completed when
  \<^verbatim>\<open>Math.random() > 0.3\<close>: \<open>coin k\<close> is the outcome of the \<open>k\<close>-th draw and
  \<open>clock k\<close> the time stamp taken after it.
\<close>

fun simulatePast :: "(nat \<Rightarrow> bool) \<Rightarrow> (nat \<Rightarrow> string) \<Rightarrow> nat \<Rightarrow> HabitInstance list
    \<Rightarrow> HabitInstance list \<times> nat" where
  "simulatePast coin clock k [] = ([], k)"
| "simulatePast coin clock k (inst # rest) =
     (let inst' = (if coin k then inst\<lparr>completed_i := True, completedAt := Some (clock k)\<rparr>
                   else inst);
          (rest', k') = simulatePast coin clock (k + 1) rest
      in (inst' # rest', k'))"

fun seedLoop :: "(string \<Rightarrow> nat) \<Rightarrow> (int \<Rightarrow> string) \<Rightarrow> (nat \<Rightarrow> bool) \<Rightarrow> (nat \<Rightarrow> string)
    \<Rightarrow> Habit list \<Rightarrow> int list \<Rightarrow> HabitInstance list \<times> nat \<Rightarrow> HabitInstance list \<times> nat" where
  "seedLoop getDay dateOf coin clock habits [] s = s"
| "seedLoop getDay dateOf coin clock habits (i # offsets) (allInstances, k) =
     (let dateStr = dateOf i;
          isPast = (i < 0);
          existing = filter (\<lambda>inst. date inst = dateStr) allInstances
      in if length existing = 0 then
           let instances = createInstancesForDay getDay dateStr habits;
               (instances', k') =
                  (if isPast then simulatePast coin clock k instances else (instances, k))
           in seedLoop getDay dateOf coin clock habits offsets (allInstances @ instances', k')
         else seedLoop getDay dateOf coin clock habits offsets (allInstances, k))"

definition seedInstancesForWeek :: "(string \<Rightarrow> nat) \<Rightarrow> (int \<Rightarrow> string) \<Rightarrow> (nat \<Rightarrow> bool)
    \<Rightarrow> (nat \<Rightarrow> string) \<Rightarrow> Habit list \<Rightarrow> Store \<Rightarrow> Store" where
  "seedInstancesForWeek getDay dateOf coin clock habits st =
     (let allInstances = parseOrEmpty (INSTANCES st)
      in st\<lparr>INSTANCES :=
           Some (fst (seedLoop getDay dateOf coin clock habits [-14..3] (allInstances, 0)))\<rparr>)"

text \<open>
  The invariant of the stored instances: at most one instance for a habit and a date,
  each with the identifier composed of its date and its habit.
\<close>

definition instancesInv :: "HabitInstance list \<Rightarrow> bool" where
  "instancesInv instances =
     (distinct (map (\<lambda>i. (habitId i, date i)) instances)
      \<and> list_all (\<lambda>i. id_i i = date i @ ''_'' @ habitId i) instances)"

subsection \<open>Tasks and projects\<close>

definition getTasks :: "Store \<Rightarrow> Task list" where
  "getTasks st = parseOrEmpty (TASKS st)"

definition getProjects :: "Store \<Rightarrow> Project list" where
  "getProjects st = parseOrEmpty (PROJECTS st)"

text \<open>
  \<^verbatim>\<open>updateProjectProgress\<close>. \<open>roundPct completed total\<close> is
  \<^verbatim>\<open>Math.round((completed / total) * 100)\<close>, a non-negative integer.
\<close>

definition roundPct :: "nat \<Rightarrow> nat \<Rightarrow> nat" where
  "roundPct completed total' =
     nat (Math_round (toDouble (toDouble (of_nat completed / of_nat total') * 100)))"

text \<open>The percentage in the words of the specification, \<open>round(100 * completed / total)\<close>
  in exact arithmetic, a half going upwards.\<close>

definition exactRoundPct :: "nat \<Rightarrow> nat \<Rightarrow> nat" where
  "exactRoundPct completed total' = (200 * completed + total') div (2 * total')"

definition projectTasksOf :: "string \<Rightarrow> Task list \<Rightarrow> Task list" where
  "projectTasksOf pid tasks = filter (\<lambda>t. projectId t = Some pid) tasks"

definition progressOf :: "string \<Rightarrow> Task list \<Rightarrow> nat" where
  "progressOf pid tasks =
     (let projectTasks = projectTasksOf pid tasks;
          total = length projectTasks;
          completed = length (filter completed_t projectTasks)
      in if total = 0 then 0 else roundPct completed total)"

definition updateProjectProgress :: "string \<Rightarrow> Store \<Rightarrow> Store" where
  "updateProjectProgress pid st =
     (let tasks = getTasks st;
          prog = progressOf pid tasks;
          projects = getProjects st
      in case findIndex (\<lambda>p. id_p p = pid) projects of
           None \<Rightarrow> st
         | Some idx \<Rightarrow>
             let p1 = (projects ! idx)\<lparr>progress := prog\<rparr>;
                 p2 = (if prog = 100 then p1\<lparr>status := Completed\<rparr>
                       else if status p1 = Completed \<and> prog < 100 then p1\<lparr>status := Active\<rparr>
                       else p1)
             in st\<lparr>PROJECTS := Some (projects[idx := p2])\<rparr>)"

text \<open>
  \<^verbatim>\<open>if (task.projectId) await this.updateProjectProgress(task.projectId)\<close>, the step
  the three task operations end with; \<^verbatim>\<open>undefined\<close> and the empty string are falsy.
\<close>

definition recomputeFor :: "string option \<Rightarrow> Store \<Rightarrow> Store" where
  "recomputeFor p st =
     (case p of
        None \<Rightarrow> st
      | Some pid \<Rightarrow> if pid = [] then st else updateProjectProgress pid st)"

definition addTask :: "Task \<Rightarrow> Store \<Rightarrow> Store" where
  "addTask task st =
     (let tasks = getTasks st @ [task];
          st' = st\<lparr>TASKS := Some tasks\<rparr>
      in recomputeFor (projectId task) st')"

text \<open>\<^verbatim>\<open>{ ...tasks[idx], ...updates }\<close>\<close>

definition applyUpdates :: "Task \<Rightarrow> TaskUpdates \<Rightarrow> Task" where
  "applyUpdates task updates =
     \<lparr>id_t = (case id_u updates of None \<Rightarrow> id_t task | Some x \<Rightarrow> x),
      title = (case title_u updates of None \<Rightarrow> title task | Some x \<Rightarrow> x),
      projectId = (case projectId_u updates of None \<Rightarrow> projectId task | Some x \<Rightarrow> x),
      completed_t = (case completed_u updates of None \<Rightarrow> completed_t task | Some x \<Rightarrow> x)\<rparr>"

definition updateTask :: "string \<Rightarrow> TaskUpdates \<Rightarrow> Store \<Rightarrow> Store" where
  "updateTask taskId updates st =
     (let tasks = getTasks st in
      case findIndex (\<lambda>t. id_t t = taskId) tasks of
        None \<Rightarrow> st
      | Some idx \<Rightarrow>
          let updated = applyUpdates (tasks ! idx) updates;
              st' = st\<lparr>TASKS := Some (tasks[idx := updated])\<rparr>
          in recomputeFor (projectId updated) st')"

definition deleteTask :: "string \<Rightarrow> Store \<Rightarrow> Store" where
  "deleteTask taskId st =
     (let tasks = getTasks st;
          task = find (\<lambda>t. id_t t = taskId) tasks;
          filtered = filter (\<lambda>t. id_t t \<noteq> taskId) tasks;
          st' = st\<lparr>TASKS := Some filtered\<rparr>
      in case task of
           None \<Rightarrow> st'
         | Some t \<Rightarrow> recomputeFor (projectId t) st')"


text \<open>
  A date is covered by a list of instances when the loop of \<^verbatim>\<open>getWeekInstances\<close>
  adds nothing for it: the list has an instance of that date, or no habit is due on it.
\<close>

definition covered :: "(string \<Rightarrow> nat) \<Rightarrow> Habit list \<Rightarrow> HabitInstance list \<Rightarrow> string \<Rightarrow> bool" where
  "covered getDay hs a d =
     (filter (\<lambda>i. date i = d) a \<noteq> [] \<or> createInstancesForDay getDay d hs = [])"

text \<open>What the invariant reads of an instance.\<close>

definition key_of :: "HabitInstance \<Rightarrow> string \<times> string \<times> string" where
  "key_of i = (id_i i, habitId i, date i)"

text \<open>
  A project is in step with the tasks when the first stored project of that identifier,
  if there is one, has the progress computed from the stored tasks, and the status
  \<^verbatim>\<open>completed\<close> exactly at progress 100.
\<close>

definition projectSynced :: "string \<Rightarrow> Store \<Rightarrow> bool" where
  "projectSynced pid st =
     (case find (\<lambda>p. id_p p = pid) (getProjects st) of
        None \<Rightarrow> True
      | Some p \<Rightarrow>
          progress p = progressOf pid (getTasks st)
          \<and> status p = (if progress p = 100 then Completed else Active))"

text \<open>The stored projects, by identifier, progress and status.\<close>

definition progressAndStatus :: "Store \<Rightarrow> (string \<times> nat \<times> ProjectStatus) list" where
  "progressAndStatus st = map (\<lambda>p. (id_p p, progress p, status p)) (getProjects st)"

section \<open>Sample data\<close>

text \<open>Concrete inputs at which the theorems below are instantiated.\<close>

definition sample_getTime :: "string \<Rightarrow> int" where
  "sample_getTime s =
     (case map_of
       [(''2024-01-01'', 19723), (''2024-01-02'', 19724), (''2024-01-03'', 19725),
        (''2024-01-04'', 19726), (''2024-01-05'', 19727), (''2024-01-06'', 19728),
        (''2024-01-07'', 19729), (''2024-01-08'', 19730), (''2024-01-09'', 19731),
        (''2024-01-10'', 19732), (''2024-01-11'', 19733), (''2024-01-12'', 19734),
        (''2024-01-13'', 19735), (''2024-01-14'', 19736), (''2024-01-15'', 19737),
        (''2024-01-16'', 19738), (''2024-01-17'', 19739), (''2024-01-18'', 19740),
        (''2024-01-19'', 19741), (''2024-01-20'', 19742), (''2024-01-21'', 19743),
        (''2024-01-22'', 19744), (''2024-01-23'', 19745), (''2024-01-24'', 19746),
        (''2024-01-25'', 19747)] s of
        None \<Rightarrow> 0 | Some days \<Rightarrow> days * 86400000)"

definition sample_instance :: "string \<Rightarrow> string \<Rightarrow> bool \<Rightarrow> HabitInstance" where
  "sample_instance d h c =
     \<lparr>id_i = d @ ''_'' @ h, habitId = h, date = d, completed_i = c,
      completedAt = (if c then Some (d @ ''T20:00:00.000Z'') else None), value_i = None\<rparr>"

definition sample_history :: "HabitInstance list" where
  "sample_history =
     [sample_instance ''2024-01-05'' ''h1'' True,
      sample_instance ''2024-01-01'' ''h1'' False,
      sample_instance ''2024-01-10'' ''h1'' True]"

definition sample_history_sorted :: "HabitInstance list" where
  "sample_history_sorted =
     [sample_instance ''2024-01-10'' ''h1'' True,
      sample_instance ''2024-01-05'' ''h1'' True,
      sample_instance ''2024-01-01'' ''h1'' False]"

definition sample_stalled :: "HabitInstance list" where
  "sample_stalled =
     [sample_instance ''2024-01-05'' ''h1'' True,
      sample_instance ''2024-01-10'' ''h1'' False]"

definition sample_twenty :: "HabitInstance list" where
  "sample_twenty =
     map (\<lambda>(d, c). sample_instance d ''h1'' c)
       [(''2024-01-20'', False), (''2024-01-19'', True), (''2024-01-18'', True),
        (''2024-01-17'', True), (''2024-01-16'', True), (''2024-01-15'', True),
        (''2024-01-14'', True), (''2024-01-13'', True), (''2024-01-12'', True),
        (''2024-01-11'', True), (''2024-01-10'', False), (''2024-01-09'', False),
        (''2024-01-08'', False), (''2024-01-07'', False), (''2024-01-06'', False),
        (''2024-01-05'', False), (''2024-01-04'', False), (''2024-01-03'', False),
        (''2024-01-02'', False), (''2024-01-01'', False)]"

definition sample_three_weeks :: "HabitInstance list" where
  "sample_three_weeks =
     map (\<lambda>d. sample_instance d ''h1'' True)
       [''2024-01-21'', ''2024-01-20'', ''2024-01-19'', ''2024-01-18'',
        ''2024-01-17'', ''2024-01-16'', ''2024-01-15'', ''2024-01-14'',
        ''2024-01-13'', ''2024-01-12'', ''2024-01-11'', ''2024-01-10'',
        ''2024-01-09'', ''2024-01-08'', ''2024-01-07'', ''2024-01-06'',
        ''2024-01-05'', ''2024-01-04'', ''2024-01-03'', ''2024-01-02'',
        ''2024-01-01'']"

definition sample_getDay :: "string \<Rightarrow> nat" where
  "sample_getDay d =
     (case map_of [(''2024-01-01'', 1), (''2024-01-05'', 5), (''2024-01-06'', 6),
                   (''2024-01-08'', 1), (''2024-01-10'', 3), (''2024-01-12'', 5)] d of
        None \<Rightarrow> 0 | Some n \<Rightarrow> n)"

definition sample_store :: "Habit list \<Rightarrow> HabitInstance list \<Rightarrow> Store" where
  "sample_store hs is = \<lparr>HABITS = Some hs, INSTANCES = Some is, TASKS = None, PROJECTS = None\<rparr>"

definition sample_dateOf :: "int \<Rightarrow> string" where
  "sample_dateOf i =
     (case map_of
       [(-14, ''2023-12-29''), (-13, ''2023-12-30''), (-12, ''2023-12-31''),
        (-11, ''2024-01-01''), (-10, ''2024-01-02''), (-9, ''2024-01-03''),
        (-8, ''2024-01-04''), (-7, ''2024-01-05''), (-6, ''2024-01-06''),
        (-5, ''2024-01-07''), (-4, ''2024-01-08''), (-3, ''2024-01-09''),
        (-2, ''2024-01-10''), (-1, ''2024-01-11''), (0, ''2024-01-12''),
        (1, ''2024-01-13''), (2, ''2024-01-14''), (3, ''2024-01-15'')] i of
        None \<Rightarrow> ''2024-01-12'' | Some d \<Rightarrow> d)"

definition sample_coin :: "nat \<Rightarrow> bool" where
  "sample_coin k = even k"

definition sample_clock :: "nat \<Rightarrow> string" where
  "sample_clock k = ''2024-01-12T09:00:00.000Z''"

definition sample_habit_twice :: "Habit list" where
  "sample_habit_twice = [SUGGESTED_HABITS ! 0, SUGGESTED_HABITS ! 0]"

definition sample_daily :: "Habit list" where
  "sample_daily = [SUGGESTED_HABITS ! 0, SUGGESTED_HABITS ! 2]"

definition sample_task :: "string \<Rightarrow> string \<Rightarrow> bool \<Rightarrow> Task" where
  "sample_task t p c = \<lparr>id_t = t, title = ''Task '' @ t, projectId = Some p, completed_t = c\<rparr>"

definition sample_project :: "string \<Rightarrow> nat \<Rightarrow> ProjectStatus \<Rightarrow> Project" where
  "sample_project p n s = \<lparr>id_p = p, name_p = ''Project '' @ p, progress = n, status = s\<rparr>"

definition sample_projects_store :: "Task list \<Rightarrow> Project list \<Rightarrow> Store" where
  "sample_projects_store ts ps = \<lparr>HABITS = None, INSTANCES = None, TASKS = Some ts, PROJECTS = Some ps\<rparr>"

definition sample_three_done :: Store where
  "sample_three_done =
     sample_projects_store
       [sample_task ''t1'' ''p1'' True, sample_task ''t2'' ''p1'' True, sample_task ''t3'' ''p1'' True]
       [sample_project ''p1'' 100 Completed]"

definition no_updates :: TaskUpdates where
  "no_updates = \<lparr>id_u = None, title_u = None, projectId_u = None, completed_u = None\<rparr>"

definition sample_one_each :: Store where
  "sample_one_each =
     sample_projects_store [sample_task ''t1'' ''p1'' True]
       [sample_project ''p1'' 100 Completed, sample_project ''p2'' 0 Active]"

definition sample_thirty_nine :: Store where
  "sample_thirty_nine =
     sample_projects_store
       (map (\<lambda>(t, c). sample_task t ''p1'' c)
         [(''t1'', True), (''t2'', True), (''t3'', True), (''t4'', True),
        (''t5'', True), (''t6'', True), (''t7'', True), (''t8'', True),
        (''t9'', True), (''t10'', True), (''t11'', True), (''t12'', True),
        (''t13'', True), (''t14'', True), (''t15'', True), (''t16'', True),
        (''t17'', True), (''t18'', True), (''t19'', True), (''t20'', True),
        (''t21'', True), (''t22'', True), (''t23'', False), (''t24'', False),
        (''t25'', False), (''t26'', False), (''t27'', False), (''t28'', False),
        (''t29'', False), (''t30'', False), (''t31'', False), (''t32'', False),
        (''t33'', False), (''t34'', False), (''t35'', False), (''t36'', False),
        (''t37'', False), (''t38'', False), (''t39'', False)])
       [sample_project ''p1'' 56 Active]"

definition sample_task40 :: Task where
  "sample_task40 = sample_task ''t40'' ''p1'' True"

definition sample_no_identifier :: Store where
  "sample_no_identifier = sample_projects_store [] [sample_project [] 0 Active]"

definition sample_twins :: Store where
  "sample_twins =
     sample_projects_store [] [sample_project ''p1'' 0 Active, sample_project ''p1'' 0 Active]"

definition sample_task4 :: Task where
  "sample_task4 = sample_task ''t4'' ''p1'' False"

definition sample_complete :: TaskUpdates where
  "sample_complete = no_updates\<lparr>completed_u := Some True\<rparr>"

definition sample_move :: TaskUpdates where
  "sample_move = no_updates\<lparr>projectId_u := Some (Some ''p2'')\<rparr>"

section \<open>Properties of the streak\<close>

lemmas sample_defs = sample_getTime_def sample_instance_def sample_history_def
  sample_history_sorted_def sample_stalled_def sample_three_weeks_def

lemma streakLoop_filter:
  "streakLoop t (filter (\<lambda>i. \<not> openToday t i) xs) n = streakLoop t xs n"
  by (induction xs arbitrary: n) (auto simp: openToday_def)

lemma streakLoop_acc: "streakLoop t xs n = n + streakLoop t xs 0"
proof (induction xs arbitrary: n)
  case Nil
  show ?case by simp
next
  case (Cons x xs)
  have "streakLoop t xs (n + 1) = n + 1 + streakLoop t xs 0"
    by (rule Cons.IH)
  moreover have "streakLoop t xs 1 = 1 + streakLoop t xs 0"
    using Cons.IH [of 1] by simp
  moreover have "streakLoop t xs n = n + streakLoop t xs 0"
    by (rule Cons.IH)
  ultimately show ?case by simp
qed

lemma streakLoop_takeWhile:
  "\<forall>i\<in>set xs. date i \<noteq> t \<Longrightarrow> streakLoop t xs n = n + length (takeWhile completed_i xs)"
  by (induction xs arbitrary: n) auto

lemma getHabitStreak_drop_openToday:
  "getHabitStreak getTime t (filter (\<lambda>i. \<not> openToday t i) xs) = getHabitStreak getTime t xs"
proof -
  have "sortDesc getTime (filter (\<lambda>i. \<not> openToday t i) xs)
        = filter (\<lambda>i. \<not> openToday t i) (sortDesc getTime xs)"
    by (simp add: sortDesc_def filter_sort)
  then show ?thesis
    by (simp add: getHabitStreak_def streakLoop_filter)
qed

lemma sortDesc_unique:
  assumes d: "distinct (map (\<lambda>i. getTime (date i)) xs)"
    and m: "mset ys = mset xs"
    and s: "sorted_wrt (\<lambda>a b. getTime (date b) \<le> getTime (date a)) ys"
  shows "sortDesc getTime xs = ys"
proof -
  let ?f = "\<lambda>i. - getTime (date i)"
  have dx: "distinct (map ?f xs)"
    using d by (simp add: distinct_map inj_on_def)
  have "mset (map ?f ys) = mset (map ?f xs)" using m by simp
  then have dy: "distinct (map ?f ys)"
    using dx by (metis mset_eq_imp_distinct_iff)
  have sy: "sorted (map ?f ys)"
    using s by (simp add: sorted_map)
  have single: "filter (\<lambda>x. ?f k = ?f x) zs = [k]" if "k \<in> set zs" "distinct (map ?f zs)" for k zs
    using that
  proof (induction zs)
    case Nil
    then show ?case by simp
  next
    case (Cons z zs)
    then show ?case by (auto simp: filter_empty_conv image_iff)
  qed
  have "sort_key ?f xs = ys"
  proof (rule properties_for_sort_key [OF m _ sy])
    fix k assume k: "k \<in> set ys"
    then have kx: "k \<in> set xs" using m by (metis set_mset_mset)
    show "filter (\<lambda>x. ?f k = ?f x) ys = filter (\<lambda>x. ?f k = ?f x) xs"
      using single [OF k dy] single [OF kx dx] by simp
  qed
  then show ?thesis by (simp add: sortDesc_def)
qed

text \<open>
  C1. For every list of instances whose dates are pairwise distinct (they denote
  pairwise distinct time stamps) and none of which is dated today, the streak is the
  length of the leading run of completed instances of the list sorted by date, newest
  first; it is 0 when the newest instance is open. The dates need not be consecutive
  days: no hypothesis relates one date to the next.
\<close>

theorem C1_streak_is_leading_run:
  assumes "distinct (map (\<lambda>i. getTime (date i)) instances)"
    and "todayStr \<notin> set (map date instances)"
    and "mset byDate = mset instances"
    and "sorted_wrt (\<lambda>a b. getTime (date b) \<le> getTime (date a)) byDate"
  shows "getHabitStreak getTime todayStr instances = length (takeWhile completed_i byDate)
         \<and> (byDate \<noteq> [] \<and> \<not> completed_i (hd byDate)
              \<longrightarrow> getHabitStreak getTime todayStr instances = 0)"
proof -
  have eq: "sortDesc getTime instances = byDate"
    using assms(1,3,4) by (rule sortDesc_unique)
  have "set byDate = set instances"
    using assms(3) by (metis set_mset_mset)
  then have "\<forall>i\<in>set byDate. date i \<noteq> todayStr"
    using assms(2) by auto
  then have run: "getHabitStreak getTime todayStr instances = length (takeWhile completed_i byDate)"
    by (simp add: getHabitStreak_def eq streakLoop_takeWhile)
  moreover have "takeWhile completed_i byDate = []" if "byDate \<noteq> []" "\<not> completed_i (hd byDate)"
    using that by (cases byDate) auto
  ultimately show ?thesis by simp
qed

theorem C1_witness:
  "distinct (map (\<lambda>i. sample_getTime (date i)) sample_history)
   \<and> ''2024-01-12'' \<notin> set (map date sample_history)
   \<and> mset sample_history_sorted = mset sample_history
   \<and> sorted_wrt (\<lambda>a b. sample_getTime (date b) \<le> sample_getTime (date a)) sample_history_sorted
   \<and> getHabitStreak sample_getTime ''2024-01-12'' sample_history = 2
   \<and> rev sample_stalled \<noteq> [] \<and> \<not> completed_i (hd (rev sample_stalled))
   \<and> getHabitStreak sample_getTime ''2024-01-12'' sample_stalled = 0"
proof -
  have h1: "distinct (map (\<lambda>i. sample_getTime (date i)) sample_history)"
    by (simp add: sample_defs)
  have h2: "''2024-01-12'' \<notin> set (map date sample_history)"
    by (simp add: sample_defs)
  have h3: "mset sample_history_sorted = mset sample_history"
    by (simp add: sample_defs)
  have h4: "sorted_wrt (\<lambda>a b. sample_getTime (date b) \<le> sample_getTime (date a)) sample_history_sorted"
    by (simp add: sample_defs)
  have run: "length (takeWhile completed_i sample_history_sorted) = 2"
    by (simp add: sample_defs)
  have two: "getHabitStreak sample_getTime ''2024-01-12'' sample_history = 2"
    using C1_streak_is_leading_run [OF h1 h2 h3 h4] run by simp
  have g1: "distinct (map (\<lambda>i. sample_getTime (date i)) sample_stalled)"
    by (simp add: sample_defs)
  have g2: "''2024-01-12'' \<notin> set (map date sample_stalled)"
    by (simp add: sample_defs)
  have g3: "mset (rev sample_stalled) = mset sample_stalled"
    by simp
  have g4: "sorted_wrt (\<lambda>a b. sample_getTime (date b) \<le> sample_getTime (date a)) (rev sample_stalled)"
    by (simp add: sample_defs)
  have g5: "rev sample_stalled \<noteq> [] \<and> \<not> completed_i (hd (rev sample_stalled))"
    by (simp add: sample_defs)
  have zero: "getHabitStreak sample_getTime ''2024-01-12'' sample_stalled = 0"
    using C1_streak_is_leading_run [OF g1 g2 g3 g4] g5 by blast
  show ?thesis
    using h1 h2 h3 h4 two g5 zero by blast
qed

text \<open>
  C2. For every instance list holding no instance dated today, appending one open
  instance dated today leaves the streak as it was.
\<close>

theorem C2_streak_ignores_open_today:
  assumes "todayStr \<notin> set (map date instances)"
    and "date inst = todayStr" and "\<not> completed_i inst"
  shows "getHabitStreak getTime todayStr (instances @ [inst])
         = getHabitStreak getTime todayStr instances"
proof -
  have keep: "filter (\<lambda>i. \<not> openToday todayStr i) instances = instances"
    using assms(1) by (auto simp: openToday_def filter_id_conv)
  have gone: "filter (\<lambda>i. \<not> openToday todayStr i) (instances @ [inst]) = instances"
    using assms(2,3) keep by (simp add: openToday_def)
  have "getHabitStreak getTime todayStr (instances @ [inst])
        = getHabitStreak getTime todayStr (filter (\<lambda>i. \<not> openToday todayStr i) (instances @ [inst]))"
    by (simp only: getHabitStreak_drop_openToday)
  then show ?thesis by (simp only: gone)
qed

theorem C2_witness:
  "''2024-01-12'' \<notin> set (map date sample_history)
   \<and> getHabitStreak sample_getTime ''2024-01-12''
        (sample_history @ [sample_instance ''2024-01-12'' ''h1'' False])
      = getHabitStreak sample_getTime ''2024-01-12'' sample_history"
proof -
  have h1: "''2024-01-12'' \<notin> set (map date sample_history)"
    by (simp add: sample_defs)
  have h2: "date (sample_instance ''2024-01-12'' ''h1'' False) = ''2024-01-12''"
    by (simp add: sample_defs)
  have h3: "\<not> completed_i (sample_instance ''2024-01-12'' ''h1'' False)"
    by (simp add: sample_defs)
  show ?thesis
    using C2_streak_ignores_open_today [OF h1 h2 h3] h1 by blast
qed

section \<open>Rounding to doubles\<close>

lemma roundHalfEven_le:
  assumes "z \<le> of_int k"
  shows "roundHalfEven z \<le> k"
proof -
  have fk: "\<lfloor>z\<rfloor> \<le> k" using assms by (simp add: floor_le_iff)
  show ?thesis
  proof (cases "\<lfloor>z\<rfloor> = k")
    case True
    then have "of_int k \<le> z" by (metis of_int_floor_le)
    with assms have "z = of_int k" by simp
    then show ?thesis by (simp add: roundHalfEven_def)
  next
    case False
    with fk have "\<lfloor>z\<rfloor> + 1 \<le> k" by simp
    then show ?thesis using fk by (simp add: roundHalfEven_def Let_def)
  qed
qed

lemma roundHalfEven_nonneg:
  assumes "0 \<le> z"
  shows "0 \<le> roundHalfEven z"
proof -
  have "0 \<le> \<lfloor>z\<rfloor>" using assms by simp
  then show ?thesis by (simp add: roundHalfEven_def Let_def)
qed

lemma toDouble_nonneg:
  assumes "0 \<le> x"
  shows "0 \<le> toDouble x"
proof (cases "x = 0")
  case True
  then show ?thesis by (simp add: toDouble_def)
next
  case False
  let ?u = "(2::rat) powi (exponentOf x - 52)"
  have u: "0 < ?u" by simp
  then have "0 \<le> x / ?u" using assms by simp
  then have "0 \<le> roundHalfEven (x / ?u)" by (rule roundHalfEven_nonneg)
  then have "0 \<le> (of_int (roundHalfEven (x / ?u)) :: rat) * ?u"
    using u by simp
  then show ?thesis using False by (simp add: toDouble_def Let_def)
qed

lemma floorlog_pos: "0 < n \<Longrightarrow> 1 \<le> floorlog 2 n"
  by (simp add: floorlog_def)

lemma exponentOf_mono:
  assumes "0 < x" and "x \<le> N" and "1 \<le> N"
  shows "exponentOf x \<le> exponentOf N"
proof (cases "1 \<le> x")
  case True
  have "nat \<lfloor>x\<rfloor> \<le> nat \<lfloor>N\<rfloor>"
    using assms(2) by (simp add: floor_mono nat_mono)
  then have "floorlog 2 (nat \<lfloor>x\<rfloor>) \<le> floorlog 2 (nat \<lfloor>N\<rfloor>)"
    by (rule floorlog_mono)
  then show ?thesis
    using True assms by (simp add: exponentOf_def)
next
  case False
  have "1 \<le> \<lfloor>N\<rfloor>" using assms(3) by simp
  then have "0 < nat \<lfloor>N\<rfloor>" by simp
  then have "1 \<le> floorlog 2 (nat \<lfloor>N\<rfloor>)" by (rule floorlog_pos)
  then have "0 \<le> exponentOf N"
    using assms(3) by (simp add: exponentOf_def)
  moreover have "exponentOf x \<le> 0"
    using False assms(1) by (simp add: exponentOf_def)
  ultimately show ?thesis by simp
qed

lemma toDouble_le:
  assumes "0 \<le> x" and "x \<le> N" and "1 \<le> N"
    and rep: "N / 2 powi (exponentOf N - 52) = of_int k"
  shows "toDouble x \<le> N"
proof (cases "x = 0")
  case True
  then show ?thesis using assms(3) by (simp add: toDouble_def)
next
  case False
  with assms(1) have pos: "0 < x" by simp
  let ?e = "exponentOf x" and ?eN = "exponentOf N"
  let ?u = "(2::rat) powi (?e - 52)"
  have u: "0 < ?u" by simp
  have le: "?e \<le> ?eN" using pos assms(2,3) by (rule exponentOf_mono)
  have "(2::rat) powi (?eN - 52) = 2 powi (?e - 52) * 2 powi (?eN - ?e)"
    by (simp add: power_int_add [symmetric])
  also have "(2::rat) powi (?eN - ?e) = 2 ^ nat (?eN - ?e)"
    using le by (simp add: power_int_nonneg_exp)
  finally have "N / ?u = (N / 2 powi (?eN - 52)) * 2 ^ nat (?eN - ?e)"
    by simp
  then have "N / ?u = of_int (k * 2 ^ nat (?eN - ?e))"
    by (simp add: rep)
  moreover have "x / ?u \<le> N / ?u"
    using assms(2) u by (simp add: divide_right_mono)
  ultimately have "roundHalfEven (x / ?u) \<le> k * 2 ^ nat (?eN - ?e)"
    using roundHalfEven_le by metis
  then have "(of_int (roundHalfEven (x / ?u)) :: rat) \<le> of_int (k * 2 ^ nat (?eN - ?e))"
    by (simp only: of_int_le_iff)
  then have "(of_int (roundHalfEven (x / ?u)) :: rat) \<le> N / ?u"
    using \<open>N / ?u = of_int (k * 2 ^ nat (?eN - ?e))\<close> by simp
  then have "of_int (roundHalfEven (x / ?u)) * ?u \<le> N"
    using u by (simp add: pos_le_divide_eq)
  then show ?thesis using False by (simp add: toDouble_def Let_def)
qed

lemma exponentOf_1: "exponentOf 1 = 0" by code_simp
lemma exponentOf_100: "exponentOf 100 = 6" by code_simp
lemma exponentOf_70: "exponentOf 70 = 6" by code_simp
lemma exponentOf_30: "exponentOf 30 = 4" by code_simp

lemma toDouble_le_1: "0 \<le> x \<Longrightarrow> x \<le> 1 \<Longrightarrow> toDouble x \<le> 1"
  by (rule toDouble_le [where k = "2 ^ 52"]) (simp_all add: exponentOf_1 power_int_minus)

lemma toDouble_le_100: "0 \<le> x \<Longrightarrow> x \<le> 100 \<Longrightarrow> toDouble x \<le> 100"
  by (rule toDouble_le [where k = "100 * 2 ^ 46"]) (simp_all add: exponentOf_100 power_int_minus)

lemma toDouble_le_70: "0 \<le> x \<Longrightarrow> x \<le> 70 \<Longrightarrow> toDouble x \<le> 70"
  by (rule toDouble_le [where k = "70 * 2 ^ 46"]) (simp_all add: exponentOf_70 power_int_minus)

lemma toDouble_le_30: "0 \<le> x \<Longrightarrow> x \<le> 30 \<Longrightarrow> toDouble x \<le> 30"
  by (rule toDouble_le [where k = "30 * 2 ^ 48"]) (simp_all add: exponentOf_30 power_int_minus)

lemma toDouble_1: "toDouble 1 = 1" by code_simp

lemma toDouble_100: "toDouble 100 = 100" by code_simp

lemma seven_tenths: "toDouble (7 / 10) = 3152519739159347 / 4503599627370496" by code_simp

lemma three_tenths: "toDouble (3 / 10) = 5404319552844595 / 18014398509481984" by code_simp

lemma percentage_range:
  assumes "c \<le> t"
  shows "0 \<le> toDouble (toDouble (of_nat c / of_nat t) * 100)
       \<and> toDouble (toDouble (of_nat c / of_nat t) * 100) \<le> 100"
proof -
  let ?q = "toDouble (of_nat c / of_nat t)"
  have q0: "0 \<le> ?q" by (rule toDouble_nonneg) simp
  have "(of_nat c :: rat) / of_nat t \<le> 1"
    using assms by (cases "t = 0") (simp_all add: divide_le_eq_1)
  then have q1: "?q \<le> 1" by (intro toDouble_le_1) simp_all
  have "0 \<le> ?q * 100" using q0 by simp
  moreover have "?q * 100 \<le> 100" using q1 by simp
  ultimately show ?thesis
    by (simp add: toDouble_nonneg toDouble_le_100)
qed

lemma roundPct_le: "c \<le> t \<Longrightarrow> roundPct c t \<le> 100"
proof -
  assume "c \<le> t"
  then have "toDouble (toDouble (of_nat c / of_nat t) * 100) \<le> 100"
    using percentage_range by blast
  then have "\<lfloor>toDouble (toDouble (of_nat c / of_nat t) * 100) + 1 / 2\<rfloor> \<le> 100"
    by (simp add: floor_le_iff)
  then show ?thesis unfolding roundPct_def Math_round_def by linarith
qed

section \<open>Strength score\<close>

lemma completionRate_range:
  "c \<le> n \<Longrightarrow> 0 \<le> completionRate c n \<and> completionRate c n \<le> 100"
  unfolding completionRate_def by (rule percentage_range)

lemma streakBonus_range: "0 \<le> streakBonus s \<and> streakBonus s \<le> 100"
proof -
  have "min s 21 \<le> (21::nat)" by simp
  then have "0 \<le> toDouble (toDouble (of_nat (min s 21) / of_nat 21) * 100)
       \<and> toDouble (toDouble (of_nat (min s 21) / of_nat 21) * 100) \<le> 100"
    by (rule percentage_range)
  then show ?thesis by (simp add: streakBonus_def)
qed

lemma weighted_sum_range:
  assumes cr: "0 \<le> cr \<and> cr \<le> 100" and sb: "0 \<le> sb \<and> sb \<le> 100"
  shows "0 \<le> Math_round (toDouble (toDouble (cr * toDouble (7 / 10))
                                   + toDouble (sb * toDouble (3 / 10))))
       \<and> Math_round (toDouble (toDouble (cr * toDouble (7 / 10))
                                 + toDouble (sb * toDouble (3 / 10)))) \<le> 100"
proof -
  let ?a = "toDouble (cr * toDouble (7 / 10))"
  let ?b = "toDouble (sb * toDouble (3 / 10))"
  have a0: "0 \<le> cr * toDouble (7 / 10)" using cr by (simp add: seven_tenths)
  have a1: "cr * toDouble (7 / 10) \<le> 70" using cr by (simp add: seven_tenths)
  have b0: "0 \<le> sb * toDouble (3 / 10)" using sb by (simp add: three_tenths)
  have b1: "sb * toDouble (3 / 10) \<le> 30" using sb by (simp add: three_tenths)
  have a: "0 \<le> ?a \<and> ?a \<le> 70"
    using a0 a1 by (simp add: toDouble_nonneg toDouble_le_70)
  have b: "0 \<le> ?b \<and> ?b \<le> 30"
    using b0 b1 by (simp add: toDouble_nonneg toDouble_le_30)
  have "0 \<le> ?a + ?b" and "?a + ?b \<le> 100" using a b by simp_all
  then have "0 \<le> toDouble (?a + ?b) \<and> toDouble (?a + ?b) \<le> 100"
    by (simp add: toDouble_nonneg toDouble_le_100)
  then show ?thesis
    by (simp add: Math_round_def floor_le_iff le_floor_iff)
qed

lemma length_completed_sortDesc:
  "length (filter completed_i (sortDesc getTime xs)) = length (filter completed_i xs)"
  by (simp add: sortDesc_def filter_sort)

lemma calculateHabitStrength_eq:
  "calculateHabitStrength getTime todayStr habit instances =
     (if instances = [] then 0
      else Math_round
        (toDouble (toDouble (completionRate (length (filter completed_i instances))
                               (length instances) * toDouble (7 / 10))
                   + toDouble (streakBonus (getHabitStreak getTime todayStr instances)
                               * toDouble (3 / 10)))))"
proof -
  have len: "length (sortDesc getTime instances) = length instances"
    by (simp add: sortDesc_def)
  then have nil: "(sortDesc getTime instances = []) = (instances = [])"
    by (metis length_0_conv)
  show ?thesis
    by (simp add: calculateHabitStrength_def Let_def length_completed_sortDesc getHabitStreak_def
        len nil)
qed

lemma streakLoop_all_completed:
  "list_all completed_i xs \<Longrightarrow> streakLoop t xs n = n + length xs"
  by (induction xs arbitrary: n) auto

lemma getHabitStreak_all_completed:
  assumes "list_all completed_i xs"
  shows "getHabitStreak getTime t xs = length xs"
proof -
  have "set (sortDesc getTime xs) = set xs" by (simp add: sortDesc_def)
  then have "list_all completed_i (sortDesc getTime xs)"
    using assms by (simp add: list_all_iff)
  then show ?thesis
    by (simp add: getHabitStreak_def streakLoop_all_completed sortDesc_def)
qed

lemma streakBonus_full: "21 \<le> s \<Longrightarrow> streakBonus s = 100"
proof -
  assume "21 \<le> s"
  then have "min s 21 = 21" by simp
  moreover have "toDouble (toDouble (21 / 21) * 100) = 100" by code_simp
  ultimately show ?thesis by (simp add: streakBonus_def)
qed

lemma completionRate_full: "0 < n \<Longrightarrow> completionRate n n = 100"
  by (simp add: completionRate_def toDouble_1 toDouble_100)

lemma full_score:
  "Math_round (toDouble (toDouble (100 * toDouble (7 / 10)) + toDouble (100 * toDouble (3 / 10))))
   = 100"
  by code_simp

text \<open>
  C3 as stated fails: for 20 instances of which 9 are completed, the newest open and
  none dated today (streak 0), the exact value of the formula is 31.5 and rounds to 32,
  while the doubles give \<^verbatim>\<open>(9 / 20) * 100 * 0.7 = 31.499999999999996\<close> and the function
  returns 31.
\<close>

theorem C3_counterexample:
  "calculateHabitStrength sample_getTime ''2024-01-25'' (SUGGESTED_HABITS ! 0) sample_twenty = 31
   \<and> strength_spec (length (filter completed_i sample_twenty)) (length sample_twenty)
        (getHabitStreak sample_getTime ''2024-01-25'' sample_twenty) = 32"
  by code_simp

text \<open>
  C3, amended. For every list of instances \<^verbatim>\<open>calculateHabitStrength\<close> returns 0 when
  the list is empty, and otherwise \<^verbatim>\<open>Math.round(completionRate * 0.7 + streakBonus * 0.3)\<close>
  as the doubles give it, with \<open>completionRate\<close> the double of
  \<^verbatim>\<open>(completedCount / totalCount) * 100\<close> and \<open>streakBonus\<close> the double of
  \<^verbatim>\<open>(min(streak, 21) / 21) * 100\<close>, the streak being that of the streak walk. The result
  is an integer from 0 to 100. At a streak of 21 or more the streak bonus is 100, and
  for a list of at least 21 instances, all completed, the score is 100.
\<close>

theorem C3_strength_score:
  "calculateHabitStrength getTime todayStr habit [] = 0
   \<and> 0 \<le> calculateHabitStrength getTime todayStr habit instances
   \<and> calculateHabitStrength getTime todayStr habit instances \<le> 100
   \<and> (instances \<noteq> [] \<longrightarrow>
        calculateHabitStrength getTime todayStr habit instances =
          Math_round
            (toDouble (toDouble (completionRate (length (filter completed_i instances))
                                   (length instances) * toDouble (7 / 10))
                       + toDouble (streakBonus (getHabitStreak getTime todayStr instances)
                                   * toDouble (3 / 10)))))
   \<and> (21 \<le> getHabitStreak getTime todayStr instances \<longrightarrow>
        streakBonus (getHabitStreak getTime todayStr instances) = 100)
   \<and> (list_all completed_i instances \<and> 21 \<le> length instances \<longrightarrow>
        calculateHabitStrength getTime todayStr habit instances = 100)"
proof -
  let ?c = "length (filter completed_i instances)" and ?n = "length instances"
  let ?s = "getHabitStreak getTime todayStr instances"
  have empty: "calculateHabitStrength getTime todayStr habit [] = 0"
    by (simp add: calculateHabitStrength_eq)
  have range: "0 \<le> calculateHabitStrength getTime todayStr habit instances
      \<and> calculateHabitStrength getTime todayStr habit instances \<le> 100"
  proof (cases "instances = []")
    case True
    then show ?thesis by (simp add: calculateHabitStrength_eq)
  next
    case False
    have "?c \<le> ?n" by simp
    then have "0 \<le> completionRate ?c ?n \<and> completionRate ?c ?n \<le> 100"
      by (rule completionRate_range)
    then show ?thesis
      using False weighted_sum_range [OF _ streakBonus_range]
      by (simp add: calculateHabitStrength_eq)
  qed
  have full: "calculateHabitStrength getTime todayStr habit instances = 100"
    if all: "list_all completed_i instances" and len: "21 \<le> ?n"
  proof -
    have "?s = ?n" using all by (rule getHabitStreak_all_completed)
    then have sb: "streakBonus ?s = 100" using len by (simp add: streakBonus_full)
    have "filter completed_i instances = instances"
      using all by (simp add: list_all_iff filter_id_conv)
    moreover have ne: "instances \<noteq> []" using len by (cases instances) simp_all
    ultimately have cr: "completionRate ?c ?n = 100"
      by (simp add: completionRate_full)
    note ne
    then show ?thesis
      by (simp add: calculateHabitStrength_eq sb cr full_score)
  qed
  show ?thesis
    using empty range full streakBonus_full by (simp add: calculateHabitStrength_eq)
qed

theorem C3_witness:
  "sample_history \<noteq> []
   \<and> calculateHabitStrength sample_getTime ''2024-01-12'' (SUGGESTED_HABITS ! 0) sample_history = 50
   \<and> list_all completed_i sample_three_weeks \<and> 21 \<le> length sample_three_weeks
   \<and> 21 \<le> getHabitStreak sample_getTime ''2024-01-25'' sample_three_weeks
   \<and> streakBonus (getHabitStreak sample_getTime ''2024-01-25'' sample_three_weeks) = 100
   \<and> calculateHabitStrength sample_getTime ''2024-01-25'' (SUGGESTED_HABITS ! 0)
        sample_three_weeks = 100"
proof -
  have h1: "sample_history \<noteq> []" by (simp add: sample_defs)
  have h2: "list_all completed_i sample_three_weeks \<and> 21 \<le> length sample_three_weeks"
    by (simp add: sample_defs)
  have h3: "21 \<le> getHabitStreak sample_getTime ''2024-01-25'' sample_three_weeks"
    using h2 by (simp add: getHabitStreak_all_completed)
  have v: "Math_round
      (toDouble (toDouble (completionRate (length (filter completed_i sample_history))
                             (length sample_history) * toDouble (7 / 10))
                 + toDouble (streakBonus (getHabitStreak sample_getTime ''2024-01-12''
                               sample_history) * toDouble (3 / 10)))) = 50"
    by code_simp
  note score = C3_strength_score [of sample_getTime _ "SUGGESTED_HABITS ! 0"]
  have c1: "calculateHabitStrength sample_getTime ''2024-01-12'' (SUGGESTED_HABITS ! 0)
      sample_history = 50"
    using score [of "''2024-01-12''" sample_history] h1 v by simp
  have c2: "streakBonus (getHabitStreak sample_getTime ''2024-01-25'' sample_three_weeks) = 100"
    using score [of "''2024-01-25''" sample_three_weeks] h3 by blast
  have c3: "calculateHabitStrength sample_getTime ''2024-01-25'' (SUGGESTED_HABITS ! 0)
      sample_three_weeks = 100"
    using score [of "''2024-01-25''" sample_three_weeks] h2 by blast
  show ?thesis using h1 h2 h3 c1 c2 c3 by blast
qed

section \<open>Scheduling\<close>

lemma scheduled_dueOn: "scheduled (isWeekend dow) h = dueOn dow (schedule h)"
  by (cases "schedule h") (simp_all add: scheduled_def isWeekend_def)

lemma habitId_created:
  "map habitId (createInstancesForDay getDay d habits)
   = map id_h (filter (\<lambda>h. dueOn (getDay d) (schedule h)) habits)"
proof -
  have "scheduled (isWeekend (getDay d)) = (\<lambda>h. dueOn (getDay d) (schedule h))"
    by (rule ext) (rule scheduled_dueOn)
  then show ?thesis
    by (simp add: createInstancesForDay_def newInstance_def comp_def)
qed

text \<open>
  By the day of the week the platform reports for the date, the filter of
  \<^verbatim>\<open>createInstancesForDay\<close> keeps a habit exactly when the rule of the specification
  holds: DAILY always, WEEKDAYS on the days other than 0 and 6, WEEKENDS on the days 0
  and 6, CUSTOM always; the instances created are those of the habits kept, in their
  order.
\<close>

lemma scheduling_rule:
  "scheduled (isWeekend (getDay d)) h = dueOn (getDay d) (schedule h)
   \<and> map habitId (createInstancesForDay getDay d habits)
       = map id_h (filter (\<lambda>h. dueOn (getDay d) (schedule h)) habits)"
  by (simp add: scheduled_dueOn habitId_created)

text \<open>
  C4. The claim: a habit is due by the day of the week of the calendar date, and of a
  daily habit h1 and a weekday habit h2 only h1 is due on a date that is a Saturday.
  The code reads the day of the week in local time of midnight UTC of the date. The
  date 2024-01-06 is a Saturday, and is read as day 6 in the time zone of UTC; five hours
  west of UTC it is read as day 5, a Friday, the date is not taken for a weekend, and
  the weekday habit h2 gets an instance as well.
\<close>

theorem C4_saturday_west_of_UTC:
  "map schedule [SUGGESTED_HABITS ! 0, SUGGESTED_HABITS ! 1] = [DAILY, WEEKDAYS]
   \<and> localGetDay 0 sample_getTime ''2024-01-06'' = 6
   \<and> map habitId (createInstancesForDay (localGetDay 0 sample_getTime) ''2024-01-06''
        [SUGGESTED_HABITS ! 0, SUGGESTED_HABITS ! 1]) = [''h1'']
   \<and> localGetDay (- 18000000) sample_getTime ''2024-01-06'' = 5
   \<and> map habitId (createInstancesForDay (localGetDay (- 18000000) sample_getTime) ''2024-01-06''
        [SUGGESTED_HABITS ! 0, SUGGESTED_HABITS ! 1]) = [''h1'', ''h2'']"
  by code_simp

section \<open>Suggestions\<close>

lemma find_None_filter:
  "distinct (map id_h cat) \<Longrightarrow> h \<in> set cat \<Longrightarrow>
   (find (\<lambda>s. id_h s = id_h h) (filter P cat) = None) = (\<not> P h)"
  by (auto simp: find_None_iff distinct_map inj_on_def)

lemma backfill_filter:
  assumes "distinct (map id_h cat)"
  shows "filter (\<lambda>h. find (\<lambda>s. id_h s = id_h h) (filter P cat) = None) cat
         = filter (\<lambda>h. \<not> P h) cat"
  by (rule filter_cong [OF refl]) (simp add: find_None_filter [OF assms])

lemma distinct_catalog: "distinct (map id_h SUGGESTED_HABITS)"
  by (simp add: SUGGESTED_HABITS_def)

lemma length_catalog: "length SUGGESTED_HABITS = 5"
  by (simp add: SUGGESTED_HABITS_def)

lemma length_partition:
  "length (filter P xs) + length (filter (\<lambda>x. \<not> P x) xs) = length xs"
  by (induction xs) auto

lemma getSuggestions_spec:
  "getSuggestions interests = suggest_spec interests SUGGESTED_HABITS 5"
proof -
  let ?P = "\<lambda>h. interest h \<in> set interests"
  let ?m = "filter ?P SUGGESTED_HABITS"
  let ?u = "filter (\<lambda>h. \<not> ?P h) SUGGESTED_HABITS"
  have le: "length ?m \<le> 5"
    using length_filter_le [of ?P SUGGESTED_HABITS] by (simp add: length_catalog)
  have bf: "filter (\<lambda>h. find (\<lambda>s. id_h s = id_h h) ?m = None) SUGGESTED_HABITS = ?u"
    by (rule backfill_filter [OF distinct_catalog])
  show ?thesis
  proof (cases "length ?m < 5")
    case True
    then have "getSuggestions interests = take 5 (?m @ take (5 - length ?m) ?u)"
      by (simp add: getSuggestions_def Let_def bf)
    also have "\<dots> = take 5 (?m @ ?u)"
      using True by simp
    finally show ?thesis by (simp add: suggest_spec_def)
  next
    case False
    with le have "length ?m = 5" by simp
    then show ?thesis
      using False by (simp add: getSuggestions_def Let_def suggest_spec_def)
  qed
qed

lemma suggest_spec_all:
  "suggest_spec interests SUGGESTED_HABITS 5
   = filter (\<lambda>h. interest h \<in> set interests) SUGGESTED_HABITS
     @ filter (\<lambda>h. interest h \<notin> set interests) SUGGESTED_HABITS"
  using length_partition [of "\<lambda>h. interest h \<in> set interests" SUGGESTED_HABITS]
  by (simp add: suggest_spec_def length_catalog)

lemma mset_partition_list:
  "mset (filter P xs @ filter (\<lambda>x. \<not> P x) xs) = mset xs"
  by (induction xs) auto

text \<open>
  C9. For every list of interests, \<^verbatim>\<open>getSuggestions\<close> returns what the algorithm of
  the specification returns on the built-in catalog with target count 5: the habits
  whose interest is requested, in catalog order, then the others, in catalog order, cut
  to 5. The result has 5 entries and no identifier twice. The catalog has one
  HEALTH habit, and for the interests [HEALTH] the result is that habit followed by the
  four others.
\<close>

theorem C9_suggestions:
  "getSuggestions interests = suggest_spec interests SUGGESTED_HABITS 5
   \<and> length (getSuggestions interests) = 5
   \<and> distinct (map id_h (getSuggestions interests))
   \<and> map id_h (filter (\<lambda>h. interest h = HEALTH) SUGGESTED_HABITS) = [''h1'']
   \<and> map id_h (getSuggestions [HEALTH]) = [''h1'', ''h2'', ''h3'', ''h4'', ''h5'']"
proof -
  let ?P = "\<lambda>h. interest h \<in> set interests"
  have eq: "getSuggestions interests
            = filter ?P SUGGESTED_HABITS @ filter (\<lambda>h. \<not> ?P h) SUGGESTED_HABITS"
    by (simp only: getSuggestions_spec suggest_spec_all)
  have m: "mset (getSuggestions interests) = mset SUGGESTED_HABITS"
    by (simp only: eq mset_partition_list)
  have len: "length (getSuggestions interests) = 5"
    using m length_catalog by (metis size_mset)
  have "mset (map id_h (getSuggestions interests)) = mset (map id_h SUGGESTED_HABITS)"
    using m by simp
  then have dist: "distinct (map id_h (getSuggestions interests))"
    using distinct_catalog by (metis mset_eq_imp_distinct_iff)
  have one: "map id_h (filter (\<lambda>h. interest h = HEALTH) SUGGESTED_HABITS) = [''h1'']"
    by (simp add: SUGGESTED_HABITS_def)
  have health: "map id_h (getSuggestions [HEALTH]) = [''h1'', ''h2'', ''h3'', ''h4'', ''h5'']"
    by (simp add: getSuggestions_spec suggest_spec_def SUGGESTED_HABITS_def)
  show ?thesis using getSuggestions_spec len dist one health by simp
qed

section \<open>Lazy creation of instances\<close>

lemmas store_defs = sample_store_def sample_instance_def sample_getDay_def sample_getTime_def
  sample_habit_twice_def sample_daily_def SUGGESTED_HABITS_def parseOrEmpty_def

lemma createInstancesForDay_map:
  assumes "\<And>h. schedule (f h) = schedule h" and "\<And>h. id_h (f h) = id_h h"
  shows "createInstancesForDay getDay d (map f hs) = createInstancesForDay getDay d hs"
proof -
  have "scheduled w \<circ> f = scheduled w" for w
    by (rule ext) (simp add: scheduled_def assms)
  moreover have "newInstance d \<circ> f = newInstance d"
    by (rule ext) (simp add: newInstance_def assms)
  ultimately show ?thesis
    by (simp add: createInstancesForDay_def filter_map)
qed

lemma getHabits_map:
  "\<exists>f. getHabits getTime t st = map f (parseOrEmpty (HABITS st))
       \<and> (\<forall>h. schedule (f h) = schedule h) \<and> (\<forall>h. id_h (f h) = id_h h)"
  unfolding getHabits_def Let_def assignStreak_def
  by (rule exI [where x = "\<lambda>habit. habit\<lparr>streak := streakLoop t (sortDesc getTime
        (filter (\<lambda>i. habitId i = id_h habit) (parseOrEmpty (INSTANCES st)))) 0\<rparr>"]) simp

lemma createInstancesForDay_getHabits:
  "createInstancesForDay getDay d (getHabits getTime t st)
   = createInstancesForDay getDay d (parseOrEmpty (HABITS st))"
  using getHabits_map [of getTime t st] createInstancesForDay_map by metis

lemma length_getHabits: "length (getHabits getTime t st) = length (parseOrEmpty (HABITS st))"
  by (simp add: getHabits_def)

lemma getHabits_Nil_iff:
  "(getHabits getTime t st = []) = (parseOrEmpty (HABITS st) = [])"
  by (simp add: getHabits_def)

lemma weekLoop_cong:
  assumes "\<And>d. createInstancesForDay getDay d hs = createInstancesForDay getDay d hs'"
  shows "weekLoop getDay hs dates s = weekLoop getDay hs' dates s"
proof (induction dates arbitrary: s)
  case Nil
  show ?case by simp
next
  case (Cons d dates)
  obtain a w c where s: "s = (a, w, c)" by (cases s)
  show ?case unfolding s by (simp add: Let_def assms Cons.IH)
qed

lemma weekLoop_getHabits:
  "weekLoop getDay (getHabits getTime t st) dates s
   = weekLoop getDay (parseOrEmpty (HABITS st)) dates s"
  by (rule weekLoop_cong) (rule createInstancesForDay_getHabits)

lemma getWeekInstances_stored:
  "getWeekInstances getDay getTime t dates st =
     (let a = parseOrEmpty (INSTANCES st); hs = parseOrEmpty (HABITS st);
          r = (if hs \<noteq> [] then weekLoop getDay hs dates (a, [], False) else (a, [], False))
      in (if snd (snd r) then st\<lparr>INSTANCES := Some (fst r)\<rparr> else st, fst (snd r)))"
  by (simp add: getWeekInstances_def Let_def weekLoop_getHabits getHabits_Nil_iff
      split: prod.splits)

lemma date_created: "i \<in> set (createInstancesForDay getDay d hs) \<Longrightarrow> date i = d"
  by (auto simp: createInstancesForDay_def newInstance_def)

lemma filter_date_created:
  "filter (\<lambda>i. date i = d) (createInstancesForDay getDay d hs) = createInstancesForDay getDay d hs"
  by (simp add: filter_id_conv date_created)

lemma covered_append: "covered getDay hs a d \<Longrightarrow> covered getDay hs (a @ b) d"
  by (auto simp: covered_def)

lemma weekLoop_appends:
  "\<exists>created. fst (weekLoop getDay hs dates (a, w, c)) = a @ created"
proof (induction dates arbitrary: a w c)
  case Nil
  show ?case by simp
next
  case (Cons d dates)
  show ?case
  proof (cases "filter (\<lambda>i. date i = d) a = []")
    case True
    obtain cr where "fst (weekLoop getDay hs dates
        (a @ createInstancesForDay getDay d hs, w @ createInstancesForDay getDay d hs, True))
        = (a @ createInstancesForDay getDay d hs) @ cr"
      using Cons.IH by blast
    with True show ?thesis by (simp add: Let_def)
  next
    case False
    then show ?thesis using Cons.IH by (simp add: Let_def)
  qed
qed

lemma weekLoop_covers:
  "d \<in> set dates \<Longrightarrow> covered getDay hs (fst (weekLoop getDay hs dates (a, w, c))) d"
proof (induction dates arbitrary: a w c)
  case Nil
  then show ?case by simp
next
  case (Cons x dates)
  let ?cr = "createInstancesForDay getDay x hs"
  show ?case
  proof (cases "filter (\<lambda>i. date i = x) a = []")
    case True
    have step: "weekLoop getDay hs (x # dates) (a, w, c)
                = weekLoop getDay hs dates (a @ ?cr, w @ ?cr, True)"
      using True by (simp add: Let_def)
    show ?thesis
    proof (cases "d = x")
      case True
      have "covered getDay hs (a @ ?cr) x"
        by (cases "?cr = []") (simp_all add: covered_def filter_date_created)
      moreover obtain more where
        "fst (weekLoop getDay hs dates (a @ ?cr, w @ ?cr, True)) = (a @ ?cr) @ more"
        using weekLoop_appends by blast
      ultimately show ?thesis
        unfolding step True using covered_append by metis
    next
      case False
      with Cons.prems have "d \<in> set dates" by simp
      then show ?thesis unfolding step by (rule Cons.IH)
    qed
  next
    case False
    have step: "weekLoop getDay hs (x # dates) (a, w, c)
                = weekLoop getDay hs dates (a, w @ filter (\<lambda>i. date i = x) a, c)"
      using False by (simp add: Let_def)
    show ?thesis
    proof (cases "d = x")
      case True
      have "covered getDay hs a x" using False by (simp add: covered_def)
      moreover obtain more where
        "fst (weekLoop getDay hs dates (a, w @ filter (\<lambda>i. date i = x) a, c)) = a @ more"
        using weekLoop_appends by blast
      ultimately show ?thesis
        unfolding step True using covered_append by metis
    next
      case False
      with Cons.prems have "d \<in> set dates" by simp
      then show ?thesis unfolding step by (rule Cons.IH)
    qed
  qed
qed

lemma weekLoop_fixed:
  "\<forall>d\<in>set dates. covered getDay hs a d \<Longrightarrow> fst (weekLoop getDay hs dates (a, w, c)) = a"
proof (induction dates arbitrary: w c)
  case Nil
  show ?case by simp
next
  case (Cons x dates)
  then have cx: "covered getDay hs a x" and rest: "\<forall>d\<in>set dates. covered getDay hs a d"
    by simp_all
  show ?case
  proof (cases "filter (\<lambda>i. date i = x) a = []")
    case True
    with cx have "createInstancesForDay getDay x hs = []" by (simp add: covered_def)
    with True show ?thesis using Cons.IH [OF rest] by (simp add: Let_def)
  next
    case False
    then show ?thesis using Cons.IH [OF rest] by (simp add: Let_def)
  qed
qed

lemma weekLoop_idem:
  "fst (weekLoop getDay hs dates (fst (weekLoop getDay hs dates (a, w, c)), w', c'))
   = fst (weekLoop getDay hs dates (a, w, c))"
  by (rule weekLoop_fixed) (simp add: weekLoop_covers)

text \<open>
  C5. The claim: for every stored set, also one holding instances for some of the habits
  due on a requested date and not for others, \<^verbatim>\<open>getWeekInstances\<close> creates the
  instances that are missing. The code asks whether the date has any instance at all:
  with the daily habits h1 and h3 stored and one instance, of h1, on 2024-01-08, the call
  for that date leaves the store as it is and returns that instance alone, although
  both habits are due on that date.
\<close>

theorem C5_partial_day_left_incomplete:
  "getWeekInstances sample_getDay sample_getTime ''2024-01-12'' [''2024-01-08'']
       (sample_store sample_daily [sample_instance ''2024-01-08'' ''h1'' False])
     = (sample_store sample_daily [sample_instance ''2024-01-08'' ''h1'' False],
        [sample_instance ''2024-01-08'' ''h1'' False])
   \<and> map id_h (filter (scheduled (isWeekend (sample_getDay ''2024-01-08''))) sample_daily)
        = [''h1'', ''h3'']"
  by (simp add: getWeekInstances_stored Let_def store_defs scheduled_def isWeekend_def)

text \<open>
  C6. A call of \<^verbatim>\<open>getWeekInstances\<close> only appends to the stored instances, and a
  second call for the same dates on the store the first call left, at any later time,
  leaves that store as it is: it creates no instance.
\<close>

theorem C6_getWeekInstances_idempotent:
  "(\<exists>created. parseOrEmpty (INSTANCES (fst (getWeekInstances getDay getTime t dates st)))
        = parseOrEmpty (INSTANCES st) @ created)
   \<and> fst (getWeekInstances getDay getTime' t' dates
             (fst (getWeekInstances getDay getTime t dates st)))
       = fst (getWeekInstances getDay getTime t dates st)"
proof -
  let ?a = "parseOrEmpty (INSTANCES st)"
  let ?hs = "parseOrEmpty (HABITS st)"
  let ?r = "weekLoop getDay ?hs dates (?a, [], False)"
  show ?thesis
  proof (cases "?hs = []")
    case True
    then show ?thesis by (simp add: getWeekInstances_stored Let_def)
  next
    case False
    show ?thesis
    proof (cases "snd (snd ?r)")
      case c: False
      with False have same: "fst (getWeekInstances getDay getTime t dates st) = st"
        by (simp add: getWeekInstances_stored Let_def)
      from False c have "fst (getWeekInstances getDay getTime' t' dates st) = st"
        by (simp add: getWeekInstances_stored Let_def)
      then show ?thesis by (simp add: same)
    next
      case c: True
      with False have st1: "fst (getWeekInstances getDay getTime t dates st)
          = st\<lparr>INSTANCES := Some (fst ?r)\<rparr>"
        by (simp add: getWeekInstances_stored Let_def)
      obtain created where cr: "fst ?r = ?a @ created"
        using weekLoop_appends by blast
      have "fst (weekLoop getDay ?hs dates (fst ?r, [], False)) = fst ?r"
        by (rule weekLoop_idem)
      then have "fst (getWeekInstances getDay getTime' t' dates (st\<lparr>INSTANCES := Some (fst ?r)\<rparr>))
          = st\<lparr>INSTANCES := Some (fst ?r)\<rparr>"
        using False by (simp add: getWeekInstances_stored Let_def parseOrEmpty_def)
      then show ?thesis
        unfolding st1 using cr by (simp add: parseOrEmpty_def)
    qed
  qed
qed

section \<open>The invariant of the stored instances\<close>

lemma instancesInv_key:
  "instancesInv xs =
     (distinct (map (\<lambda>k. (fst (snd k), snd (snd k))) (map key_of xs))
      \<and> list_all (\<lambda>k. fst k = snd (snd k) @ ''_'' @ fst (snd k)) (map key_of xs))"
  by (simp add: instancesInv_def key_of_def comp_def list_all_iff)

lemma instancesInv_cong:
  "map key_of xs = map key_of ys \<Longrightarrow> instancesInv xs = instancesInv ys"
  by (simp only: instancesInv_key)

lemma simulatePast_keys:
  "map key_of (fst (simulatePast coin clock k xs)) = map key_of xs"
proof (induction xs arbitrary: k)
  case Nil
  show ?case by simp
next
  case (Cons x xs)
  obtain r k' where sp: "simulatePast coin clock (Suc k) xs = (r, k')"
    by (cases "simulatePast coin clock (Suc k) xs")
  have "map key_of r = map key_of xs"
    using Cons.IH [of "Suc k"] sp by simp
  moreover have "key_of (x\<lparr>completed_i := True, completedAt := Some (clock k)\<rparr>) = key_of x"
    by (simp add: key_of_def)
  ultimately show ?case
    by (simp add: sp)
qed

lemma instancesInv_append_created:
  assumes inv: "instancesInv a" and dist: "distinct (map id_h hs)"
    and none: "filter (\<lambda>i. date i = d) a = []"
  shows "instancesInv (a @ createInstancesForDay getDay d hs)"
proof -
  let ?cr = "createInstancesForDay getDay d hs"
  let ?k = "\<lambda>i. (habitId i, date i)"
  have keys: "map ?k ?cr = map (\<lambda>h. (id_h h, d)) (filter (scheduled (isWeekend (getDay d))) hs)"
    by (simp add: createInstancesForDay_def newInstance_def comp_def)
  have "distinct (map id_h (filter (scheduled (isWeekend (getDay d))) hs))"
    using dist by (rule distinct_map_filter)
  then have d1: "distinct (map ?k ?cr)"
    unfolding keys by (simp add: distinct_map inj_on_def)
  have "\<forall>i\<in>set a. date i \<noteq> d"
    using none by (simp add: filter_empty_conv)
  moreover have "\<forall>i\<in>set ?cr. date i = d"
    by (simp add: date_created)
  ultimately have d2: "set (map ?k a) \<inter> set (map ?k ?cr) = {}"
    by auto
  have ids: "list_all (\<lambda>i. id_i i = date i @ ''_'' @ habitId i) ?cr"
    by (simp add: createInstancesForDay_def newInstance_def list_all_iff)
  show ?thesis
    using inv d1 d2 ids by (simp add: instancesInv_def)
qed

lemma weekLoop_inv:
  "instancesInv a \<Longrightarrow> distinct (map id_h hs)
   \<Longrightarrow> instancesInv (fst (weekLoop getDay hs dates (a, w, c)))"
proof (induction dates arbitrary: a w c)
  case Nil
  then show ?case by simp
next
  case (Cons d dates)
  show ?case
  proof (cases "filter (\<lambda>i. date i = d) a = []")
    case True
    have "instancesInv (a @ createInstancesForDay getDay d hs)"
      using Cons.prems True by (rule instancesInv_append_created)
    then show ?thesis
      using True Cons.IH Cons.prems(2) by (simp add: Let_def)
  next
    case False
    then show ?thesis using Cons.IH Cons.prems by (simp add: Let_def)
  qed
qed

lemma seedLoop_inv:
  "instancesInv a \<Longrightarrow> distinct (map id_h hs)
   \<Longrightarrow> instancesInv (fst (seedLoop getDay dateOf coin clock hs offsets (a, k)))"
proof (induction offsets arbitrary: a k)
  case Nil
  then show ?case by simp
next
  case (Cons i offsets)
  let ?d = "dateOf i"
  let ?cr = "createInstancesForDay getDay ?d hs"
  show ?case
  proof (cases "filter (\<lambda>inst. date inst = ?d) a = []")
    case True
    have inv: "instancesInv (a @ ?cr)"
      using Cons.prems True by (rule instancesInv_append_created)
    have "map key_of (a @ fst (simulatePast coin clock k ?cr)) = map key_of (a @ ?cr)"
      by (simp add: simulatePast_keys)
    then have inv': "instancesInv (a @ fst (simulatePast coin clock k ?cr))"
      using inv instancesInv_cong by blast
    obtain r k' where sp: "simulatePast coin clock k ?cr = (r, k')"
      by (cases "simulatePast coin clock k ?cr")
    have past: "instancesInv (fst (seedLoop getDay dateOf coin clock hs offsets (a @ r, k')))"
      using inv' sp Cons.IH Cons.prems(2) by simp
    have future: "instancesInv (fst (seedLoop getDay dateOf coin clock hs offsets (a @ ?cr, k)))"
      using inv Cons.IH Cons.prems(2) by simp
    show ?thesis
      using True past future by (simp add: Let_def sp)
  next
    case False
    then show ?thesis using Cons.IH Cons.prems by (simp add: Let_def)
  qed
qed

lemma id_h_getHabits: "map id_h (getHabits getTime t st) = map id_h (parseOrEmpty (HABITS st))"
  by (simp add: getHabits_def assignStreak_def comp_def)

text \<open>
  C7 as stated fails: with the habit h1 stored twice and no instance stored, the
  invariant holds before \<^verbatim>\<open>getWeekInstances\<close> and not after it, which created two
  instances of h1 for the date.
\<close>

theorem C7_counterexample:
  "instancesInv (parseOrEmpty (INSTANCES (sample_store sample_habit_twice [])))
   \<and> \<not> instancesInv (parseOrEmpty (INSTANCES (fst
         (getWeekInstances sample_getDay sample_getTime ''2024-01-12'' [''2024-01-08'']
            (sample_store sample_habit_twice [])))))"
  by (simp add: getWeekInstances_stored Let_def store_defs scheduled_def isWeekend_def
      createInstancesForDay_def newInstance_def instancesInv_def)

text \<open>
  C7, amended. Starting from stored instances that satisfy the invariant (at most one
  instance for a habit and a date, each with the identifier composed of date and
  habit), \<^verbatim>\<open>getWeekInstances\<close> preserves it when the stored habits have pairwise
  distinct identifiers, and \<^verbatim>\<open>seedInstancesForWeek\<close> preserves it when the habits it
  is given have pairwise distinct identifiers, whatever the random draws.
\<close>

theorem C7_instances_invariant:
  assumes "instancesInv (parseOrEmpty (INSTANCES st))"
  shows "(distinct (map id_h (parseOrEmpty (HABITS st)))
            \<longrightarrow> instancesInv (parseOrEmpty (INSTANCES
                   (fst (getWeekInstances getDay getTime t dates st)))))
       \<and> (distinct (map id_h habits)
            \<longrightarrow> instancesInv (parseOrEmpty (INSTANCES
                   (seedInstancesForWeek getDay dateOf coin clock habits st))))"
proof -
  let ?a = "parseOrEmpty (INSTANCES st)"
  let ?hs = "parseOrEmpty (HABITS st)"
  have week: "instancesInv (parseOrEmpty (INSTANCES
                (fst (getWeekInstances getDay getTime t dates st))))"
    if d: "distinct (map id_h ?hs)"
  proof -
    have "instancesInv (fst (weekLoop getDay ?hs dates (?a, [], False)))"
      using assms d by (rule weekLoop_inv)
    then show ?thesis
      using assms by (simp add: getWeekInstances_stored Let_def parseOrEmpty_def)
  qed
  have seed: "instancesInv (parseOrEmpty (INSTANCES
                (seedInstancesForWeek getDay dateOf coin clock habits st)))"
    if d: "distinct (map id_h habits)"
  proof -
    have "instancesInv (fst (seedLoop getDay dateOf coin clock habits [-14..3] (?a, 0)))"
      using assms d by (rule seedLoop_inv)
    then show ?thesis
      by (simp add: seedInstancesForWeek_def Let_def parseOrEmpty_def)
  qed
  show ?thesis using week seed by blast
qed

theorem C7_witness:
  "instancesInv (parseOrEmpty (INSTANCES (sample_store sample_daily
       [sample_instance ''2024-01-08'' ''h1'' False])))
   \<and> distinct (map id_h (parseOrEmpty (HABITS (sample_store sample_daily
       [sample_instance ''2024-01-08'' ''h1'' False]))))
   \<and> instancesInv (parseOrEmpty (INSTANCES (fst
        (getWeekInstances sample_getDay sample_getTime ''2024-01-12''
           [''2024-01-08'', ''2024-01-10'']
           (sample_store sample_daily [sample_instance ''2024-01-08'' ''h1'' False])))))
   \<and> distinct (map id_h sample_daily)
   \<and> instancesInv (parseOrEmpty (INSTANCES
        (seedInstancesForWeek sample_getDay sample_dateOf sample_coin sample_clock sample_daily
           (sample_store sample_daily [sample_instance ''2024-01-08'' ''h1'' False]))))"
proof -
  let ?st = "sample_store sample_daily [sample_instance ''2024-01-08'' ''h1'' False]"
  have h1: "instancesInv (parseOrEmpty (INSTANCES ?st))"
    by (simp add: store_defs instancesInv_def)
  have h2: "distinct (map id_h (parseOrEmpty (HABITS ?st)))"
    by (simp add: store_defs)
  have h3: "distinct (map id_h sample_daily)"
    by (simp add: store_defs)
  show ?thesis
    using C7_instances_invariant [OF h1] h1 h2 h3 by blast
qed

section \<open>Completion of an instance\<close>

text \<open>
  C8. The claim: \<^verbatim>\<open>updateInstanceStatus\<close> stamps the completion time when
  \<^verbatim>\<open>completed\<close> is true and clears it when it is false. The code assigns
  \<^verbatim>\<open>completedAt\<close> only when \<^verbatim>\<open>completed\<close> is true: reopening the completed instance
  of 2024-01-10 leaves the time stamp of its completion in the store.
\<close>

theorem C8_timestamp_not_cleared:
  "updateInstanceStatus ''2024-01-12T09:00:00.000Z'' ''2024-01-10_h1'' False None
       (sample_store [] [sample_instance ''2024-01-10'' ''h1'' True])
     = sample_store []
         [\<lparr>id_i = ''2024-01-10_h1'', habitId = ''h1'', date = ''2024-01-10'',
           completed_i = False, completedAt = Some ''2024-01-10T20:00:00.000Z'',
           value_i = None\<rparr>]"
  by (simp add: updateInstanceStatus_def Let_def sample_store_def sample_instance_def)

section \<open>Progress of a project\<close>

lemmas task_defs = sample_task_def sample_project_def sample_projects_store_def
  sample_three_done_def sample_one_each_def no_updates_def sample_task4_def
  sample_complete_def sample_move_def

lemma findIndex_Some:
  "findIndex P xs = Some i \<Longrightarrow> i < length xs \<and> P (xs ! i) \<and> find P xs = Some (xs ! i)"
proof (induction xs arbitrary: i)
  case Nil
  then show ?case by simp
next
  case (Cons x xs)
  then show ?case by (cases "P x") auto
qed

lemma findIndex_None: "findIndex P xs = None \<Longrightarrow> find P xs = None"
  by (induction xs) (auto split: if_splits)

lemma find_update:
  "findIndex P xs = Some i \<Longrightarrow> P y \<Longrightarrow> find P (xs[i := y]) = Some y"
proof (induction xs arbitrary: i)
  case Nil
  then show ?case by simp
next
  case (Cons x xs)
  then show ?case by (cases "P x") auto
qed

lemma progressOf_le: "progressOf pid tasks \<le> 100"
proof -
  have "length (filter completed_t (projectTasksOf pid tasks)) \<le> length (projectTasksOf pid tasks)"
    by simp
  then show ?thesis
    by (simp add: progressOf_def Let_def roundPct_le)
qed

lemma updateProjectProgress_synced:
  "projectSynced pid (updateProjectProgress pid st)"
proof (cases "findIndex (\<lambda>p. id_p p = pid) (getProjects st)")
  case None
  then have "find (\<lambda>p. id_p p = pid) (getProjects st) = None"
    by (rule findIndex_None)
  with None show ?thesis
    by (simp add: updateProjectProgress_def projectSynced_def Let_def)
next
  case (Some idx)
  let ?prog = "progressOf pid (getTasks st)"
  let ?p1 = "(getProjects st ! idx)\<lparr>progress := ?prog\<rparr>"
  let ?p2 = "if ?prog = 100 then ?p1\<lparr>status := Completed\<rparr>
             else if status ?p1 = Completed \<and> ?prog < 100 then ?p1\<lparr>status := Active\<rparr>
             else ?p1"
  have le: "?prog \<le> 100" by (rule progressOf_le)
  have st': "updateProjectProgress pid st
             = st\<lparr>PROJECTS := Some ((getProjects st)[idx := ?p2])\<rparr>"
    using Some by (simp add: updateProjectProgress_def Let_def)
  have "id_p (getProjects st ! idx) = pid"
    using findIndex_Some [OF Some] by simp
  then have idp: "id_p ?p2 = pid" by simp
  have found: "find (\<lambda>p. id_p p = pid) ((getProjects st)[idx := ?p2]) = Some ?p2"
    using Some idp by (rule find_update)
  have prog: "progress ?p2 = ?prog" by simp
  have stat: "status ?p2 = (if ?prog = 100 then Completed else Active)"
    using le by (cases "status (getProjects st ! idx)") auto
  show ?thesis
    unfolding st' projectSynced_def
    using found prog stat
    by (simp add: getProjects_def getTasks_def parseOrEmpty_def)
qed

lemma recomputeFor_synced:
  "pid \<noteq> [] \<Longrightarrow> projectSynced pid (recomputeFor (Some pid) st)"
  by (simp add: recomputeFor_def updateProjectProgress_synced)

lemma scenario:
  "progressAndStatus (addTask sample_task4 sample_three_done) = [(''p1'', 75, Active)]
   \<and> progressAndStatus (updateTask ''t4'' sample_complete (addTask sample_task4 sample_three_done))
       = [(''p1'', 100, Completed)]"
  by code_simp

text \<open>
  \<^verbatim>\<open>updateTask\<close> recomputes the project the task belongs to after the merge, and not
  the project the task has left, as \<^verbatim>\<open>deleteTask\<close> does: when the only task of project
  p1, completed, is moved to project p2, p1 has no task left and keeps progress 100 and
  status \<^verbatim>\<open>completed\<close>.
\<close>

lemma updateTask_old_project:
  "projectTasksOf ''p1'' (getTasks (updateTask ''t1'' sample_move sample_one_each)) = []
   \<and> progressAndStatus (updateTask ''t1'' sample_move sample_one_each)
       = [(''p1'', 100, Completed), (''p2'', 100, Completed)]
   \<and> \<not> projectSynced ''p1'' (updateTask ''t1'' sample_move sample_one_each)"
  by code_simp

text \<open>
  C10 as stated fails. The stored progress is that of the doubles: when the 23rd of 40
  tasks of a project is completed, \<^verbatim>\<open>(23 / 40) * 100\<close> is 57.49999999999999 and the
  progress stored is 57, where \<open>round(100 * 23 / 40)\<close> is 58. The guard
  \<^verbatim>\<open>if (task.projectId)\<close> passes over the empty identifier: a project of that
  identifier stays at progress 0 when a completed task is added to it. And of two
  stored projects of one identifier \<^verbatim>\<open>findIndex\<close> finds the first: the second stays
  at progress 0.
\<close>

theorem C10_counterexample:
  "length (projectTasksOf ''p1'' (getTasks (addTask sample_task40 sample_thirty_nine))) = 40
   \<and> length (filter completed_t
        (projectTasksOf ''p1'' (getTasks (addTask sample_task40 sample_thirty_nine)))) = 23
   \<and> progressAndStatus (addTask sample_task40 sample_thirty_nine) = [(''p1'', 57, Active)]
   \<and> exactRoundPct 23 40 = 58
   \<and> map completed_t
        (projectTasksOf [] (getTasks (addTask (sample_task ''t1'' [] True) sample_no_identifier)))
       = [True]
   \<and> progressAndStatus (addTask (sample_task ''t1'' [] True) sample_no_identifier)
       = [([], 0, Active)]
   \<and> progressAndStatus (addTask (sample_task ''t1'' ''p1'' True) sample_twins)
       = [(''p1'', 100, Completed), (''p1'', 0, Active)]"
  by code_simp

text \<open>
  C10, amended. After \<^verbatim>\<open>addTask\<close> of a task with a non-empty project identifier, after
  \<^verbatim>\<open>updateTask\<close> of a stored task whose project identifier after the merge is
  non-empty, and after \<^verbatim>\<open>deleteTask\<close> of a stored task with a non-empty project
  identifier, the first stored project of that identifier has the progress computed
  from the tasks stored after the call (0 without member tasks, else
  \<^verbatim>\<open>Math.round((completed / total) * 100)\<close> as the doubles give it) and the status
  \<^verbatim>\<open>completed\<close> exactly at progress 100, \<^verbatim>\<open>active\<close> otherwise. Adding an open fourth
  task to a project of three completed tasks gives progress 75 and \<^verbatim>\<open>active\<close>;
  completing it gives 100 and \<^verbatim>\<open>completed\<close>.
\<close>

theorem C10_task_operations_sync_project:
  "(projectId task = Some pid \<and> pid \<noteq> []
      \<longrightarrow> projectSynced pid (addTask task st))
   \<and> (findIndex (\<lambda>t. id_t t = taskId) (getTasks st) = Some idx
        \<and> projectId (applyUpdates (getTasks st ! idx) updates) = Some pid \<and> pid \<noteq> []
      \<longrightarrow> projectSynced pid (updateTask taskId updates st))
   \<and> (find (\<lambda>t. id_t t = taskId) (getTasks st) = Some old
        \<and> projectId old = Some pid \<and> pid \<noteq> []
      \<longrightarrow> projectSynced pid (deleteTask taskId st))
   \<and> progressAndStatus (addTask sample_task4 sample_three_done) = [(''p1'', 75, Active)]
   \<and> progressAndStatus (updateTask ''t4'' sample_complete (addTask sample_task4 sample_three_done))
       = [(''p1'', 100, Completed)]"
proof -
  have a: "projectSynced pid (addTask task st)"
    if "projectId task = Some pid" "pid \<noteq> []"
    using that recomputeFor_synced by (simp add: addTask_def Let_def)
  have u: "projectSynced pid (updateTask taskId updates st)"
    if "findIndex (\<lambda>t. id_t t = taskId) (getTasks st) = Some idx"
      "projectId (applyUpdates (getTasks st ! idx) updates) = Some pid" "pid \<noteq> []"
    using that recomputeFor_synced by (simp add: updateTask_def Let_def)
  have d: "projectSynced pid (deleteTask taskId st)"
    if "find (\<lambda>t. id_t t = taskId) (getTasks st) = Some old"
      "projectId old = Some pid" "pid \<noteq> []"
    using that recomputeFor_synced by (simp add: deleteTask_def Let_def)
  show ?thesis
    using a u d scenario by blast
qed

theorem C10_witness:
  "projectId sample_task4 = Some ''p1'' \<and> ''p1'' \<noteq> []
   \<and> projectSynced ''p1'' (addTask sample_task4 sample_three_done)
   \<and> findIndex (\<lambda>t. id_t t = ''t4'') (getTasks (addTask sample_task4 sample_three_done)) = Some 3
   \<and> projectId (applyUpdates (getTasks (addTask sample_task4 sample_three_done) ! 3)
        sample_complete) = Some ''p1''
   \<and> projectSynced ''p1'' (updateTask ''t4'' sample_complete
        (addTask sample_task4 sample_three_done))
   \<and> find (\<lambda>t. id_t t = ''t1'') (getTasks sample_three_done) = Some (sample_task ''t1'' ''p1'' True)
   \<and> projectId (sample_task ''t1'' ''p1'' True) = Some ''p1''
   \<and> projectSynced ''p1'' (deleteTask ''t1'' sample_three_done)"
proof -
  let ?st1 = "addTask sample_task4 sample_three_done"
  have h1: "projectId sample_task4 = Some ''p1'' \<and> ''p1'' \<noteq> []"
    by (simp add: task_defs)
  have h2: "findIndex (\<lambda>t. id_t t = ''t4'') (getTasks ?st1) = Some 3"
    by code_simp
  have h3: "projectId (applyUpdates (getTasks ?st1 ! 3) sample_complete) = Some ''p1''"
    by code_simp
  have h4: "find (\<lambda>t. id_t t = ''t1'') (getTasks sample_three_done)
            = Some (sample_task ''t1'' ''p1'' True)"
    by (simp add: task_defs getTasks_def parseOrEmpty_def)
  have h5: "projectId (sample_task ''t1'' ''p1'' True) = Some ''p1''"
    by (simp add: task_defs)
  note sync = C10_task_operations_sync_project
  have c1: "projectSynced ''p1'' ?st1"
    using sync [where task = sample_task4 and pid = "''p1''" and st = sample_three_done] h1
    by blast
  have c2: "projectSynced ''p1'' (updateTask ''t4'' sample_complete ?st1)"
    using sync [where pid = "''p1''" and taskId = "''t4''" and st = ?st1 and idx = 3
        and updates = sample_complete] h1 h2 h3
    by blast
  have c3: "projectSynced ''p1'' (deleteTask ''t1'' sample_three_done)"
    using sync [where pid = "''p1''" and st = sample_three_done and taskId = "''t1''"
        and old = "sample_task ''t1'' ''p1'' True"] h1 h4 h5
    by blast
  show ?thesis
    using h1 h2 h3 h4 h5 c1 c2 c3 by blast
qed

end
